theory Spec2Isabelle
  imports Main "HOL-Library.AList"
begin

section \<open>Data model (shared schema)\<close>

text \<open>
  The three tables of the shared schema. An insert type (\<open>InsertWheelchair\<close>,
  \<open>InsertClient\<close>, \<open>InsertReservation\<close>) is the record of the picked columns; the
  stored row extends it with the columns the store assigns, which is what the object
  spreads \<open>{ ...wheelchair, id, rentalCount: 0 }\<close> build.

  Identifiers and counters are JavaScript numbers that only ever hold integers: \<open>int\<close>.
  A reservation's \<open>startDate\<close> and \<open>endDate\<close> are \<open>Date\<close> objects (the request schema
  coerces them), compared with \<open>\<le>\<close> and \<open>\<ge>\<close> through their time value: the type
  \<open>date\<close> is that time value, the milliseconds since the epoch. \<open>registerDate\<close> and
  \<open>lastService\<close> are never compared; they are kept as the text they were written with.
  A nullable column is an \<open>option\<close>.
\<close>

type_synonym date = int

record insertWheelchair =
  model :: string
  brand :: string
  year :: int
  motor :: string
  wheelSize :: string
  lastService :: "string option"

record wheelchair = insertWheelchair +
  w_id :: int
  rentalCount :: "int option"

record insertClient =
  firstName :: string
  lastName :: string
  dni :: string
  address :: string
  phone :: string
  email :: string
  registerDate :: string
  city :: string
  country :: string

record client = insertClient +
  c_id :: int

record insertReservation =
  clientId :: int
  wheelchairId :: int
  startDate :: date
  endDate :: date
  r_notes :: "string option"

record reservation = insertReservation +
  r_id :: int
  status :: string

text \<open>
  \<open>Partial<InsertWheelchair>\<close>, \<open>Partial<InsertClient>\<close>: every key may be absent
  (\<open>None\<close>). The body of \<open>PUT /reservations/:id\<close> is \<open>Partial<InsertReservation>\<close>
  together with the key \<open>status\<close>, which the reservation form sends and the handler
  reads, although the request schema does not have it.
\<close>

record wheelchairPatch =
  pw_model :: "string option"
  pw_brand :: "string option"
  pw_year :: "int option"
  pw_motor :: "string option"
  pw_wheelSize :: "string option"
  pw_lastService :: "string option option"

record clientPatch =
  pc_firstName :: "string option"
  pc_lastName :: "string option"
  pc_dni :: "string option"
  pc_address :: "string option"
  pc_phone :: "string option"
  pc_email :: "string option"
  pc_registerDate :: "string option"
  pc_city :: "string option"
  pc_country :: "string option"

record reservationPatch =
  pr_clientId :: "int option"
  pr_wheelchairId :: "int option"
  pr_startDate :: "date option"
  pr_endDate :: "date option"
  pr_notes :: "string option option"
  pr_status :: "string option"

text \<open>
  One key of an object spread \<open>{ ...existing, ...patch }\<close>: the patch's value when the
  key is there, the existing value otherwise. \<open>spreadWheelchair\<close>, \<open>spreadClient\<close>
  and \<open>spreadReservation\<close> below are that spread for each row type.
\<close>

definition spread :: "'a \<Rightarrow> 'a option \<Rightarrow> 'a" where
  "spread existing patched = (case patched of None \<Rightarrow> existing | Some v \<Rightarrow> v)"

record availabilityResult =
  available :: bool
  availableWheelchairs :: "wheelchair list"

record dashboardStats =
  ds_availableWheelchairs :: int
  ds_totalWheelchairs :: int
  ds_activeReservations :: int
  ds_totalClients :: int

section \<open>The in-memory store (MemStorage)\<close>

text \<open>
  A JavaScript \<open>Map\<close> keeps its entries in insertion order, one per key: an association
  list. \<open>get\<close> is \<open>map_of\<close>; \<open>set\<close> is \<open>AList.update\<close>, which replaces the value of a
  key in place and appends a new key at the end; \<open>delete\<close> is \<open>AList.delete\<close> and
  answers whether the key was there; \<open>values()\<close> lists the second components and
  \<open>size\<close> is the length.
\<close>

record store =
  wheelchairsData :: "(int \<times> wheelchair) list"
  clientsData :: "(int \<times> client) list"
  reservationsData :: "(int \<times> reservation) list"
  wheelchairCurrentId :: int
  clientCurrentId :: int
  reservationCurrentId :: int

definition Map_values :: "('k \<times> 'v) list \<Rightarrow> 'v list" where
  "Map_values m = map snd m"

definition Map_has :: "('k \<times> 'v) list \<Rightarrow> 'k \<Rightarrow> bool" where
  "Map_has m k = (map_of m k \<noteq> None)"

subsection \<open>Wheelchairs\<close>

definition getAllWheelchairs :: "store \<Rightarrow> wheelchair list" where
  "getAllWheelchairs s = Map_values (wheelchairsData s)"

definition getWheelchair :: "store \<Rightarrow> int \<Rightarrow> wheelchair option" where
  "getWheelchair s i = map_of (wheelchairsData s) i"

definition createWheelchair :: "store \<Rightarrow> insertWheelchair \<Rightarrow> store \<times> wheelchair" where
  "createWheelchair s w =
     (let i = wheelchairCurrentId s;
          newWheelchair = \<lparr>model = model w, brand = brand w, year = year w, motor = motor w,
                           wheelSize = wheelSize w, lastService = lastService w,
                           w_id = i, rentalCount = Some 0\<rparr>
      in (s\<lparr>wheelchairCurrentId := i + 1,
            wheelchairsData := AList.update i newWheelchair (wheelchairsData s)\<rparr>,
          newWheelchair))"

definition spreadWheelchair :: "wheelchair \<Rightarrow> wheelchairPatch \<Rightarrow> wheelchair" where
  "spreadWheelchair existingWheelchair p =
     existingWheelchair
       \<lparr>model := spread (model existingWheelchair) (pw_model p),
        brand := spread (brand existingWheelchair) (pw_brand p),
        year := spread (year existingWheelchair) (pw_year p),
        motor := spread (motor existingWheelchair) (pw_motor p),
        wheelSize := spread (wheelSize existingWheelchair) (pw_wheelSize p),
        lastService := spread (lastService existingWheelchair) (pw_lastService p)\<rparr>"

definition updateWheelchair ::
  "store \<Rightarrow> int \<Rightarrow> wheelchairPatch \<Rightarrow> store \<times> wheelchair option" where
  "updateWheelchair s i p =
     (case map_of (wheelchairsData s) i of
        None \<Rightarrow> (s, None)
      | Some existingWheelchair \<Rightarrow>
          (let updatedWheelchair = spreadWheelchair existingWheelchair p
           in (s\<lparr>wheelchairsData := AList.update i updatedWheelchair (wheelchairsData s)\<rparr>,
               Some updatedWheelchair)))"

definition deleteWheelchair :: "store \<Rightarrow> int \<Rightarrow> store \<times> bool" where
  "deleteWheelchair s i =
     (s\<lparr>wheelchairsData := AList.delete i (wheelchairsData s)\<rparr>, Map_has (wheelchairsData s) i)"

subsection \<open>Clients\<close>

definition getAllClients :: "store \<Rightarrow> client list" where
  "getAllClients s = Map_values (clientsData s)"

definition getClient :: "store \<Rightarrow> int \<Rightarrow> client option" where
  "getClient s i = map_of (clientsData s) i"

definition createClient :: "store \<Rightarrow> insertClient \<Rightarrow> store \<times> client" where
  "createClient s c =
     (let i = clientCurrentId s;
          newClient = \<lparr>firstName = firstName c, lastName = lastName c, dni = dni c,
                       address = address c, phone = phone c, email = email c,
                       registerDate = registerDate c, city = city c, country = country c,
                       c_id = i\<rparr>
      in (s\<lparr>clientCurrentId := i + 1,
            clientsData := AList.update i newClient (clientsData s)\<rparr>,
          newClient))"

definition spreadClient :: "client \<Rightarrow> clientPatch \<Rightarrow> client" where
  "spreadClient existingClient p =
     existingClient
       \<lparr>firstName := spread (firstName existingClient) (pc_firstName p),
        lastName := spread (lastName existingClient) (pc_lastName p),
        dni := spread (dni existingClient) (pc_dni p),
        address := spread (address existingClient) (pc_address p),
        phone := spread (phone existingClient) (pc_phone p),
        email := spread (email existingClient) (pc_email p),
        registerDate := spread (registerDate existingClient) (pc_registerDate p),
        city := spread (city existingClient) (pc_city p),
        country := spread (country existingClient) (pc_country p)\<rparr>"

definition updateClient :: "store \<Rightarrow> int \<Rightarrow> clientPatch \<Rightarrow> store \<times> client option" where
  "updateClient s i p =
     (case map_of (clientsData s) i of
        None \<Rightarrow> (s, None)
      | Some existingClient \<Rightarrow>
          (let updatedClient = spreadClient existingClient p
           in (s\<lparr>clientsData := AList.update i updatedClient (clientsData s)\<rparr>,
               Some updatedClient)))"

definition deleteClient :: "store \<Rightarrow> int \<Rightarrow> store \<times> bool" where
  "deleteClient s i =
     (s\<lparr>clientsData := AList.delete i (clientsData s)\<rparr>, Map_has (clientsData s) i)"

subsection \<open>Reservations\<close>

definition getAllReservations :: "store \<Rightarrow> reservation list" where
  "getAllReservations s = Map_values (reservationsData s)"

definition getReservation :: "store \<Rightarrow> int \<Rightarrow> reservation option" where
  "getReservation s i = map_of (reservationsData s) i"

text \<open>
  \<open>wheelchair.rentalCount = (wheelchair.rentalCount || 0) + 1\<close>: a \<open>null\<close> count and
  a zero count both read as 0. When the identifier resolves to no wheelchair the store
  is left as it is and the answer is \<open>false\<close>.
\<close>

definition rentalCountOr0 :: "wheelchair \<Rightarrow> int" where
  "rentalCountOr0 w = (case rentalCount w of None \<Rightarrow> 0 | Some n \<Rightarrow> n)"

definition incrementWheelchairRentalCount :: "store \<Rightarrow> int \<Rightarrow> store \<times> bool" where
  "incrementWheelchairRentalCount s i =
     (case map_of (wheelchairsData s) i of
        None \<Rightarrow> (s, False)
      | Some w \<Rightarrow>
          (s\<lparr>wheelchairsData :=
                AList.update i (w\<lparr>rentalCount := Some (rentalCountOr0 w + 1)\<rparr>)
                  (wheelchairsData s)\<rparr>,
           True))"

text \<open>
  \<open>createReservation\<close> stores the row first and then increments the counter, whose
  boolean answer it does not look at.
\<close>

definition createReservation :: "store \<Rightarrow> insertReservation \<Rightarrow> store \<times> reservation" where
  "createReservation s r =
     (let i = reservationCurrentId s;
          newReservation = \<lparr>clientId = clientId r, wheelchairId = wheelchairId r,
                            startDate = startDate r, endDate = endDate r, r_notes = r_notes r,
                            r_id = i, status = ''active''\<rparr>;
          s1 = s\<lparr>reservationCurrentId := i + 1,
                 reservationsData := AList.update i newReservation (reservationsData s)\<rparr>;
          s2 = fst (incrementWheelchairRentalCount s1 (wheelchairId r))
      in (s2, newReservation))"

definition spreadReservation :: "reservation \<Rightarrow> reservationPatch \<Rightarrow> reservation" where
  "spreadReservation existingReservation p =
     existingReservation
       \<lparr>clientId := spread (clientId existingReservation) (pr_clientId p),
        wheelchairId := spread (wheelchairId existingReservation) (pr_wheelchairId p),
        startDate := spread (startDate existingReservation) (pr_startDate p),
        endDate := spread (endDate existingReservation) (pr_endDate p),
        r_notes := spread (r_notes existingReservation) (pr_notes p),
        status := spread (status existingReservation) (pr_status p)\<rparr>"

definition updateReservation ::
  "store \<Rightarrow> int \<Rightarrow> reservationPatch \<Rightarrow> store \<times> reservation option" where
  "updateReservation s i p =
     (case map_of (reservationsData s) i of
        None \<Rightarrow> (s, None)
      | Some existingReservation \<Rightarrow>
          (let updatedReservation = spreadReservation existingReservation p
           in (s\<lparr>reservationsData := AList.update i updatedReservation (reservationsData s)\<rparr>,
               Some updatedReservation)))"

definition deleteReservation :: "store \<Rightarrow> int \<Rightarrow> store \<times> bool" where
  "deleteReservation s i =
     (s\<lparr>reservationsData := AList.delete i (reservationsData s)\<rparr>,
      Map_has (reservationsData s) i)"

subsection \<open>Business logic\<close>

text \<open>
  \<open>new Date()\<close>, the clock, is the parameter \<open>today\<close>. \<open>new Set(xs)\<close> is the list
  without its repetitions: \<open>has\<close> is membership and \<open>size\<close> the length.
\<close>

definition getActiveReservations :: "store \<Rightarrow> date \<Rightarrow> reservation list" where
  "getActiveReservations s today =
     filter (\<lambda>reservation. status reservation = ''active'' \<and> endDate reservation \<ge> today)
       (Map_values (reservationsData s))"

definition checkAvailability :: "store \<Rightarrow> date \<Rightarrow> date \<Rightarrow> availabilityResult" where
  "checkAvailability s startD endD =
     (let overlappingReservations =
            filter (\<lambda>reservation.
                (startD \<le> endDate reservation \<and> endD \<ge> startDate reservation) \<and>
                status reservation = ''active'')
              (Map_values (reservationsData s));
          reservedWheelchairIds = remdups (map wheelchairId overlappingReservations);
          avail = filter (\<lambda>w. w_id w \<notin> set reservedWheelchairIds)
                    (Map_values (wheelchairsData s))
      in \<lparr>available = (length avail > 0), availableWheelchairs = avail\<rparr>)"

definition getDashboardStats :: "store \<Rightarrow> date \<Rightarrow> dashboardStats" where
  "getDashboardStats s today =
     (let activeReservations =
            filter (\<lambda>reservation. status reservation = ''active'' \<and> endDate reservation \<ge> today)
              (Map_values (reservationsData s));
          reservedWheelchairIds = remdups (map wheelchairId activeReservations);
          totalWheelchairs = int (length (wheelchairsData s))
      in \<lparr>ds_availableWheelchairs = totalWheelchairs - int (length reservedWheelchairIds),
          ds_totalWheelchairs = totalWheelchairs,
          ds_activeReservations = int (length activeReservations),
          ds_totalClients = int (length (clientsData s))\<rparr>)"


subsection \<open>Construction\<close>

text \<open>
  The constructor starts the three counters at 1 and \<open>initializeData\<close> creates the
  fifteen sample wheelchairs, in this order. A wheel size is written \<open>12"\<close> in the
  source: the digits followed by the inch mark, character 0x22.
\<close>

definition inches :: "string \<Rightarrow> string" where
  "inches digits = digits @ [CHR 0x22]"

definition initialWheelchairs :: "insertWheelchair list" where
  "initialWheelchairs =
     [\<lparr>model = ''XR-500'', brand = ''MobilityPlus'', year = 2022, motor = ''350W'',
        wheelSize = inches ''12'', lastService = Some ''2023-01-15''\<rparr>,
      \<lparr>model = ''CT-200'', brand = ''EasyRide'', year = 2021, motor = ''280W'',
        wheelSize = inches ''10'', lastService = Some ''2023-02-10''\<rparr>,
      \<lparr>model = ''ZT-800'', brand = ''PowerMove'', year = 2023, motor = ''450W'',
        wheelSize = inches ''14'', lastService = Some ''2023-03-05''\<rparr>,
      \<lparr>model = ''EV-100'', brand = ''MobilityPlus'', year = 2022, motor = ''300W'',
        wheelSize = inches ''12'', lastService = Some ''2023-01-20''\<rparr>,
      \<lparr>model = ''LX-400'', brand = ''ComfortGlide'', year = 2021, motor = ''320W'',
        wheelSize = inches ''11'', lastService = Some ''2023-02-15''\<rparr>,
      \<lparr>model = ''RT-600'', brand = ''PowerMove'', year = 2023, motor = ''400W'',
        wheelSize = inches ''13'', lastService = Some ''2023-03-10''\<rparr>,
      \<lparr>model = ''JN-300'', brand = ''MobilityPlus'', year = 2022, motor = ''280W'',
        wheelSize = inches ''10'', lastService = Some ''2023-01-25''\<rparr>,
      \<lparr>model = ''FT-700'', brand = ''EasyRide'', year = 2021, motor = ''420W'',
        wheelSize = inches ''14'', lastService = Some ''2023-02-20''\<rparr>,
      \<lparr>model = ''GX-250'', brand = ''ComfortGlide'', year = 2023, motor = ''270W'',
        wheelSize = inches ''11'', lastService = Some ''2023-03-15''\<rparr>,
      \<lparr>model = ''VZ-150'', brand = ''PowerMove'', year = 2022, motor = ''250W'',
        wheelSize = inches ''10'', lastService = Some ''2023-01-30''\<rparr>,
      \<lparr>model = ''KS-550'', brand = ''MobilityPlus'', year = 2021, motor = ''380W'',
        wheelSize = inches ''12'', lastService = Some ''2023-02-25''\<rparr>,
      \<lparr>model = ''PT-900'', brand = ''EasyRide'', year = 2023, motor = ''470W'',
        wheelSize = inches ''15'', lastService = Some ''2023-03-20''\<rparr>,
      \<lparr>model = ''DL-350'', brand = ''ComfortGlide'', year = 2022, motor = ''310W'',
        wheelSize = inches ''11'', lastService = Some ''2023-01-05''\<rparr>,
      \<lparr>model = ''QR-450'', brand = ''PowerMove'', year = 2021, motor = ''340W'',
        wheelSize = inches ''12'', lastService = Some ''2023-02-05''\<rparr>,
      \<lparr>model = ''BZ-650'', brand = ''MobilityPlus'', year = 2023, motor = ''410W'',
        wheelSize = inches ''13'', lastService = Some ''2023-03-25''\<rparr>]"

definition emptyStore :: store where
  "emptyStore = \<lparr>wheelchairsData = [], clientsData = [], reservationsData = [],
                  wheelchairCurrentId = 1, clientCurrentId = 1, reservationCurrentId = 1\<rparr>"

definition initializeData :: "store \<Rightarrow> store" where
  "initializeData s = foldl (\<lambda>st w. fst (createWheelchair st w)) s initialWheelchairs"

definition MemStorage_new :: store where
  "MemStorage_new = initializeData emptyStore"

section \<open>The routes\<close>

text \<open>
  A handler answers with an error (the HTTP status and the message of the JSON body) or
  with success and the store after the request. Every error answer is sent before the
  handler has written to the store, so a rejected request leaves the store as it was.
  The route parameter \<open>parseInt(req.params.id)\<close> is an \<open>int\<close>; a parameter that is not
  a number reads as \<open>NaN\<close>, which no \<open>Map\<close> holds as a key, and behaves like any absent
  key.
\<close>

datatype error = HttpError nat string

text \<open>
  \<open>validateBody(schema)\<close> replaces \<open>req.body\<close> by \<open>schema.parse(req.body)\<close>. The
  types of the bodies stand for the parsed values (numbers, coerced dates, text); the
  format checks of the wheelchair and client schemas (year range, e-mail, minimum
  lengths) are not modelled, so the results below hold for every body, and with it for
  every body that passes them. \<open>reservationSchema\<close> is the object schema of the keys
  \<open>clientId\<close>, \<open>wheelchairId\<close>, \<open>startDate\<close>, \<open>endDate\<close> and \<open>notes\<close>; it has no key
  \<open>status\<close>, and parsing an object schema keeps the schema's keys only. The body the
  \<open>PUT /reservations/:id\<close> handler works on has therefore no \<open>status\<close>, whatever the
  request carried.
\<close>

definition reservationSchema_partial_parse :: "reservationPatch \<Rightarrow> reservationPatch" where
  "reservationSchema_partial_parse body = body\<lparr>pr_status := None\<rparr>"

text \<open>
  JavaScript truthiness of an optional number: an absent key and the number 0 are both
  falsy. A \<open>Date\<close> object is always truthy, so for the two date keys the test is
  whether the key is there.
\<close>

definition truthy :: "int option \<Rightarrow> bool" where
  "truthy x = (case x of None \<Rightarrow> False | Some n \<Rightarrow> n \<noteq> 0)"

definition or_else :: "int option \<Rightarrow> int \<Rightarrow> int" where
  "or_else x d = (case x of None \<Rightarrow> d | Some n \<Rightarrow> if n \<noteq> 0 then n else d)"

subsection \<open>POST /reservations\<close>

definition post_reservations :: "store \<Rightarrow> insertReservation \<Rightarrow> error + store \<times> reservation" where
  "post_reservations s body =
     (case getClient s (clientId body) of
        None \<Rightarrow> Inl (HttpError 400 ''Client not found'')
      | Some client \<Rightarrow>
     (case getWheelchair s (wheelchairId body) of
        None \<Rightarrow> Inl (HttpError 400 ''Wheelchair not found'')
      | Some wheelchair \<Rightarrow>
     (let startD = startDate body; endD = endDate body
      in if startD \<ge> endD then Inl (HttpError 400 ''End date must be after start date'')
         else
           (let availability = checkAvailability s startD endD;
                isWheelchairAvailable =
                  list_ex (\<lambda>w. w_id w = wheelchairId body) (availableWheelchairs availability)
            in if \<not> isWheelchairAvailable
               then Inl (HttpError 400 ''Wheelchair is not available for the requested dates'')
               else Inr (createReservation s body)))))"

subsection \<open>PUT /reservations/:id\<close>

text \<open>
  The filter of the update path: the active reservations of one wheelchair, other than
  the reservation \<open>i\<close> being edited, that overlap the range.
\<close>

definition overlappingReservations ::
  "store \<Rightarrow> int \<Rightarrow> int \<Rightarrow> date \<Rightarrow> date \<Rightarrow> reservation list" where
  "overlappingReservations s i wid startD endD =
     filter (\<lambda>r. r_id r \<noteq> i \<and> wheelchairId r = wid \<and> status r = ''active'' \<and>
                 startDate r \<le> endD \<and> endDate r \<ge> startD)
       (getAllReservations s)"

text \<open>
  The check block of the handler: \<open>Some\<close> error when it answers early, \<open>None\<close> when
  it falls through to the update (also when the block is skipped). The block also calls
  \<open>checkAvailability\<close> and never reads the answer; the call only reads the store and
  is left out.
\<close>

definition put_reservations_check :: "store \<Rightarrow> int \<Rightarrow> reservationPatch \<Rightarrow> error option" where
  "put_reservations_check s i body =
     (if (pr_startDate body \<noteq> None \<or> pr_endDate body \<noteq> None \<or> truthy (pr_wheelchairId body)) \<and>
         \<not> (pr_status body = Some ''cancelled'')
      then
        (case getReservation s i of
           None \<Rightarrow> Some (HttpError 404 ''Reservation not found'')
         | Some existingReservation \<Rightarrow>
             (let startD = spread (startDate existingReservation) (pr_startDate body);
                  endD = spread (endDate existingReservation) (pr_endDate body);
                  wid = or_else (pr_wheelchairId body) (wheelchairId existingReservation)
              in if startD \<ge> endD
                 then Some (HttpError 400 ''End date must be after start date'')
                 else if length (overlappingReservations s i wid startD endD) > 0
                 then Some (HttpError 400 ''Wheelchair is not available for the requested dates'')
                 else None))
      else None)"

definition put_reservations_handler ::
  "store \<Rightarrow> int \<Rightarrow> reservationPatch \<Rightarrow> error + store \<times> reservation" where
  "put_reservations_handler s i body =
     (case put_reservations_check s i body of
        Some e \<Rightarrow> Inl e
      | None \<Rightarrow>
          (case updateReservation s i body of
             (s', None) \<Rightarrow> Inl (HttpError 404 ''Reservation not found'')
           | (s', Some updatedReservation) \<Rightarrow> Inr (s', updatedReservation)))"

definition put_reservations :: "store \<Rightarrow> int \<Rightarrow> reservationPatch \<Rightarrow> error + store \<times> reservation" where
  "put_reservations s i body = put_reservations_handler s i (reservationSchema_partial_parse body)"

subsection \<open>The other writing routes\<close>

definition delete_reservations :: "store \<Rightarrow> int \<Rightarrow> error + store" where
  "delete_reservations s i =
     (case deleteReservation s i of
        (s', False) \<Rightarrow> Inl (HttpError 404 ''Reservation not found'')
      | (s', True) \<Rightarrow> Inr s')"

definition post_wheelchairs :: "store \<Rightarrow> insertWheelchair \<Rightarrow> error + store \<times> wheelchair" where
  "post_wheelchairs s body = Inr (createWheelchair s body)"

definition put_wheelchairs :: "store \<Rightarrow> int \<Rightarrow> wheelchairPatch \<Rightarrow> error + store \<times> wheelchair" where
  "put_wheelchairs s i body =
     (case updateWheelchair s i body of
        (s', None) \<Rightarrow> Inl (HttpError 404 ''Wheelchair not found'')
      | (s', Some updatedWheelchair) \<Rightarrow> Inr (s', updatedWheelchair))"

definition delete_wheelchairs :: "store \<Rightarrow> int \<Rightarrow> error + store" where
  "delete_wheelchairs s i =
     (case deleteWheelchair s i of
        (s', False) \<Rightarrow> Inl (HttpError 404 ''Wheelchair not found'')
      | (s', True) \<Rightarrow> Inr s')"

definition post_clients :: "store \<Rightarrow> insertClient \<Rightarrow> error + store \<times> client" where
  "post_clients s body = Inr (createClient s body)"

definition put_clients :: "store \<Rightarrow> int \<Rightarrow> clientPatch \<Rightarrow> error + store \<times> client" where
  "put_clients s i body =
     (case updateClient s i body of
        (s', None) \<Rightarrow> Inl (HttpError 404 ''Client not found'')
      | (s', Some updatedClient) \<Rightarrow> Inr (s', updatedClient))"

definition delete_clients :: "store \<Rightarrow> int \<Rightarrow> error + store" where
  "delete_clients s i =
     (case deleteClient s i of
        (s', False) \<Rightarrow> Inl (HttpError 404 ''Client not found'')
      | (s', True) \<Rightarrow> Inr s')"

subsection \<open>Sequences of requests\<close>

text \<open>
  The writing requests of the API. \<open>handle\<close> is the store after an accepted request;
  \<open>step\<close> keeps the store when the request is rejected, and \<open>run\<close> serves a list of
  requests one after the other. The stores \<open>run MemStorage_new reqs\<close> are exactly the
  stores the server can be in.
\<close>

datatype request =
    PostWheelchair insertWheelchair
  | PutWheelchair int wheelchairPatch
  | DeleteWheelchair int
  | PostClient insertClient
  | PutClient int clientPatch
  | DeleteClient int
  | PostReservation insertReservation
  | PutReservation int reservationPatch
  | DeleteReservation int

fun handle :: "store \<Rightarrow> request \<Rightarrow> error + store" where
  "handle s (PostWheelchair body) = map_sum id fst (post_wheelchairs s body)"
| "handle s (PutWheelchair i body) = map_sum id fst (put_wheelchairs s i body)"
| "handle s (DeleteWheelchair i) = delete_wheelchairs s i"
| "handle s (PostClient body) = map_sum id fst (post_clients s body)"
| "handle s (PutClient i body) = map_sum id fst (put_clients s i body)"
| "handle s (DeleteClient i) = delete_clients s i"
| "handle s (PostReservation body) = map_sum id fst (post_reservations s body)"
| "handle s (PutReservation i body) = map_sum id fst (put_reservations s i body)"
| "handle s (DeleteReservation i) = delete_reservations s i"

definition step :: "store \<Rightarrow> request \<Rightarrow> store" where
  "step s req = (case handle s req of Inl e \<Rightarrow> s | Inr s' \<Rightarrow> s')"

definition run :: "store \<Rightarrow> request list \<Rightarrow> store" where
  "run s reqs = foldl step s reqs"


section \<open>The properties of the specification\<close>

text \<open>
  The inclusive overlap rule: \<open>[s1, e1]\<close> and \<open>[s2, e2]\<close> overlap when
  \<open>s1 \<le> e2\<close> and \<open>e1 \<ge> s2\<close>. A reservation blocks a unit for a range when it is
  active, references the unit and overlaps the range.
\<close>

definition overlaps :: "date \<Rightarrow> date \<Rightarrow> date \<Rightarrow> date \<Rightarrow> bool" where
  "overlaps s1 e1 s2 e2 = (s1 \<le> e2 \<and> e1 \<ge> s2)"

definition blocks :: "reservation \<Rightarrow> int \<Rightarrow> date \<Rightarrow> date \<Rightarrow> bool" where
  "blocks r u startD endD =
     (status r = ''active'' \<and> wheelchairId r = u \<and>
      overlaps (startDate r) (endDate r) startD endD)"

text \<open>
  No double-booking of unit \<open>u\<close>: two stored reservations with different identifiers,
  both active and both on \<open>u\<close>, never overlap.
\<close>

definition noDoubleBooking :: "store \<Rightarrow> int \<Rightarrow> bool" where
  "noDoubleBooking s u =
     (\<forall>r1 \<in> set (getAllReservations s). \<forall>r2 \<in> set (getAllReservations s).
        r_id r1 \<noteq> r_id r2 \<and> status r1 = ''active'' \<and> status r2 = ''active'' \<and>
        wheelchairId r1 = u \<and> wheelchairId r2 = u
        \<longrightarrow> \<not> overlaps (startDate r1) (endDate r1) (startDate r2) (endDate r2))"

definition startBeforeEnd :: "store \<Rightarrow> bool" where
  "startBeforeEnd s = (\<forall>r \<in> set (getAllReservations s). startDate r < endDate r)"

text \<open>
  What the store's own bookkeeping maintains for the reservations: one entry per key,
  every row filed under its own identifier, and every identifier below the counter
  that numbers the next row.
\<close>

definition reservationsFiled :: "store \<Rightarrow> bool" where
  "reservationsFiled s =
     (distinct (map fst (reservationsData s)) \<and>
      (\<forall>kr \<in> set (reservationsData s).
         r_id (snd kr) = fst kr \<and> fst kr < reservationCurrentId s))"

text \<open>A list of requests the server accepts one after the other.\<close>

definition accepted :: "store \<Rightarrow> request \<Rightarrow> bool" where
  "accepted s req = (case handle s req of Inl e \<Rightarrow> False | Inr s' \<Rightarrow> True)"

fun allAccepted :: "store \<Rightarrow> request list \<Rightarrow> bool" where
  "allAccepted s [] = True"
| "allAccepted s (req # reqs) = (accepted s req \<and> allAccepted (step s req) reqs)"

section \<open>Example data\<close>

text \<open>
  Dates at midnight UTC, by the number of the day since the epoch: day 19723 is
  2024-01-01, day 19732 is 2024-01-10, day 19733 is 2024-01-11, day 19737 is
  2024-01-15.
\<close>

definition day :: "int \<Rightarrow> date" where
  "day n = n * 86400000"

definition anaGarcia :: insertClient where
  "anaGarcia = \<lparr>firstName = ''Ana'', lastName = ''Garcia'', dni = ''12345678Z'',
      address = ''Calle Mayor 1'', phone = ''600123456'', email = ''ana@example.com'',
      registerDate = ''2024-01-01'', city = ''Madrid'', country = ''Spain''\<rparr>"

definition booking :: "int \<Rightarrow> int \<Rightarrow> int \<Rightarrow> insertReservation" where
  "booking u d1 d2 =
     \<lparr>clientId = 1, wheelchairId = u, startDate = day d1, endDate = day d2, r_notes = None\<rparr>"

definition noChange :: reservationPatch where
  "noChange = \<lparr>pr_clientId = None, pr_wheelchairId = None, pr_startDate = None,
                pr_endDate = None, pr_notes = None, pr_status = None\<rparr>"

definition noClientChange :: clientPatch where
  "noClientChange = \<lparr>pc_firstName = None, pc_lastName = None, pc_dni = None,
      pc_address = None, pc_phone = None, pc_email = None, pc_registerDate = None,
      pc_city = None, pc_country = None\<rparr>"

text \<open>One client and one booking of wheelchair 1 from 2024-01-01 to 2024-01-10.\<close>

definition oneBooking :: store where
  "oneBooking = run MemStorage_new [PostClient anaGarcia, PostReservation (booking 1 19723 19732)]"

text \<open>
  Two bookings of the same days on wheelchairs 1 and 2, each then moved to the
  wheelchair identifier 0 by a \<open>PUT\<close> that carries nothing else.
\<close>

definition movedToZero :: "request list" where
  "movedToZero =
     [PostClient anaGarcia,
      PostReservation (booking 1 19723 19732),
      PostReservation (booking 2 19723 19732),
      PutReservation 1 (noChange\<lparr>pr_wheelchairId := Some 0\<rparr>),
      PutReservation 2 (noChange\<lparr>pr_wheelchairId := Some 0\<rparr>)]"

text \<open>
  Two bookings of wheelchair 1, the second starting the day after the first ends, and
  the second then moved four days later.
\<close>

definition backToBack :: "request list" where
  "backToBack =
     [PostClient anaGarcia,
      PostReservation (booking 1 19723 19732),
      PostReservation (booking 1 19733 19737),
      PutReservation 2 (noChange\<lparr>pr_startDate := Some (day 19737), pr_endDate := Some (day 19741)\<rparr>)]"

text \<open>The store with the one client, before any booking.\<close>

definition oneClient :: store where
  "oneClient = run MemStorage_new [PostClient anaGarcia]"

text \<open>
  Three bookings of the same days on wheelchairs 1, 2 and 3; the store then marks the
  second completed and the third cancelled (through \<open>updateReservation\<close> itself: no
  request gets a status into the store, see \<open>reservationSchema_partial_parse\<close>).
\<close>

definition threeStatuses :: store where
  "threeStatuses =
     (let s3 = run MemStorage_new
                 [PostClient anaGarcia,
                  PostReservation (booking 1 19723 19732),
                  PostReservation (booking 2 19723 19732),
                  PostReservation (booking 3 19723 19732)];
          s4 = fst (updateReservation s3 2 (noChange\<lparr>pr_status := Some ''completed''\<rparr>))
      in fst (updateReservation s4 3 (noChange\<lparr>pr_status := Some ''cancelled''\<rparr>)))"

text \<open>
  The server after wheelchairs 4 to 15 were deleted, with one client and one booking of
  wheelchair 1 from 2024-01-01 to 2024-01-10.
\<close>

definition threeChairsLeft :: store where
  "threeChairsLeft =
     run MemStorage_new
       (map DeleteWheelchair [4, 5, 6, 7, 8, 9, 10, 11, 12, 13, 14, 15] @
        [PostClient anaGarcia, PostReservation (booking 1 19723 19732)])"

text \<open>Bodies for the update routes.\<close>

definition newRegisterDate :: clientPatch where
  "newRegisterDate = noClientChange\<lparr>pc_registerDate := Some ''2030-12-31''\<rparr>"

definition cancelWithDates :: "int \<Rightarrow> int \<Rightarrow> reservationPatch" where
  "cancelWithDates d1 d2 =
     noChange\<lparr>pr_startDate := Some (day d1), pr_endDate := Some (day d2),
               pr_status := Some ''cancelled''\<rparr>"

definition unknownClient :: "insertReservation \<Rightarrow> insertReservation" where
  "unknownClient b = b\<lparr>clientId := 7\<rparr>"

section \<open>Lemmas about the store and the routes\<close>

subsection \<open>Maps and the reservation rows\<close>

lemma set_update_distinct:
  "distinct (map fst al) \<Longrightarrow>
     set (AList.update k v al) = {kv \<in> set al. fst kv \<noteq> k} \<union> {(k, v)}"
  by (induction al) (auto simp: rev_image_eqI)

lemma set_update_fresh:
  "k \<notin> fst ` set al \<Longrightarrow> set (AList.update k v al) = set al \<union> {(k, v)}"
  by (induction al) auto

lemma increment_frame:
  "reservationsData (fst (incrementWheelchairRentalCount s i)) = reservationsData s"
  "reservationCurrentId (fst (incrementWheelchairRentalCount s i)) = reservationCurrentId s"
  "clientsData (fst (incrementWheelchairRentalCount s i)) = clientsData s"
  by (simp_all add: incrementWheelchairRentalCount_def split: option.splits)

lemma createReservation_row:
  "snd (createReservation s b) =
     \<lparr>clientId = clientId b, wheelchairId = wheelchairId b, startDate = startDate b,
      endDate = endDate b, r_notes = r_notes b, r_id = reservationCurrentId s,
      status = ''active''\<rparr>"
  by (simp add: createReservation_def Let_def)

lemma createReservation_reservations:
  "reservationsData (fst (createReservation s b)) =
     AList.update (reservationCurrentId s) (snd (createReservation s b)) (reservationsData s)"
  "reservationCurrentId (fst (createReservation s b)) = reservationCurrentId s + 1"
  by (simp_all add: createReservation_def Let_def increment_frame)

lemma filed_fresh: "reservationsFiled s \<Longrightarrow> reservationCurrentId s \<notin> fst ` set (reservationsData s)"
  by (auto simp: reservationsFiled_def)

lemma createReservation_rows:
  assumes "reservationsFiled s"
  shows "set (reservationsData (fst (createReservation s b))) =
           set (reservationsData s) \<union> {(reservationCurrentId s, snd (createReservation s b))}"
  using filed_fresh[OF assms] by (simp add: createReservation_reservations set_update_fresh)

lemma createReservation_filed:
  assumes "reservationsFiled s"
  shows "reservationsFiled (fst (createReservation s b))"
proof -
  have d: "distinct (map fst (reservationsData (fst (createReservation s b))))"
    using assms by (simp add: createReservation_reservations reservationsFiled_def distinct_update)
  show ?thesis
    unfolding reservationsFiled_def
    using d assms
    by (auto simp: createReservation_rows[OF assms] createReservation_reservations(2)
        createReservation_row reservationsFiled_def)
qed


lemma availableWheelchairs_eq:
  "availableWheelchairs (checkAvailability s startD endD) =
     filter (\<lambda>w. \<not> list_ex (\<lambda>r. blocks r (w_id w) startD endD) (getAllReservations s))
       (getAllWheelchairs s)"
proof -
  have "w_id w \<notin> wheelchairId ` {r \<in> set rs. (startD \<le> endDate r \<and> endD \<ge> startDate r) \<and> status r = ''active''}
        \<longleftrightarrow> \<not> list_ex (\<lambda>r. blocks r (w_id w) startD endD) rs" for w :: wheelchair and rs
    unfolding list_ex_iff blocks_def overlaps_def image_iff by fastforce
  then show ?thesis
    unfolding checkAvailability_def getAllReservations_def getAllWheelchairs_def Let_def
    by simp
qed

lemma post_reservations_Inr:
  assumes "post_reservations s b = Inr (s', r)"
  shows "getClient s (clientId b) \<noteq> None"
    and "getWheelchair s (wheelchairId b) \<noteq> None"
    and "startDate b < endDate b"
    and "list_ex (\<lambda>w. w_id w = wheelchairId b)
           (availableWheelchairs (checkAvailability s (startDate b) (endDate b)))"
    and "createReservation s b = (s', r)"
  using assms
  by (auto simp: post_reservations_def Let_def split: option.splits if_splits)

lemma post_reservations_unblocked:
  assumes "post_reservations s b = Inr (s', r)"
    and "r' \<in> set (getAllReservations s)"
  shows "\<not> blocks r' (wheelchairId b) (startDate b) (endDate b)"
proof -
  from post_reservations_Inr(4)[OF assms(1)]
  obtain w where "w \<in> set (availableWheelchairs (checkAvailability s (startDate b) (endDate b)))"
    and "w_id w = wheelchairId b"
    by (auto simp: list_ex_iff)
  then have "\<not> list_ex (\<lambda>r. blocks r (wheelchairId b) (startDate b) (endDate b)) (getAllReservations s)"
    by (auto simp: availableWheelchairs_eq)
  with assms(2) show ?thesis by (auto simp: list_ex_iff)
qed

lemma overlaps_sym: "overlaps a b c d = overlaps c d a b"
  by (auto simp: overlaps_def)

lemma rows_conv: "set (getAllReservations s) = snd ` set (reservationsData s)"
  by (simp add: getAllReservations_def Map_values_def)

lemma post_reservations_rows:
  assumes "post_reservations s b = Inr (s', r)" and "reservationsFiled s"
  shows "set (getAllReservations s') = set (getAllReservations s) \<union> {r}"
    and "r_id r = reservationCurrentId s"
    and "status r = ''active''" and "wheelchairId r = wheelchairId b"
    and "startDate r = startDate b" and "endDate r = endDate b"
    and "reservationsFiled s'"
proof -
  have c: "createReservation s b = (s', r)" by (rule post_reservations_Inr(5)[OF assms(1)])
  then have s': "s' = fst (createReservation s b)" and r: "r = snd (createReservation s b)"
    by simp_all
  show "set (getAllReservations s') = set (getAllReservations s) \<union> {r}"
    unfolding rows_conv s' createReservation_rows[OF assms(2)] r by simp
  show "r_id r = reservationCurrentId s" "status r = ''active''" "wheelchairId r = wheelchairId b"
    "startDate r = startDate b" "endDate r = endDate b"
    unfolding r createReservation_row by simp_all
  show "reservationsFiled s'" unfolding s' by (rule createReservation_filed[OF assms(2)])
qed

lemma filed_id_below:
  "reservationsFiled s \<Longrightarrow> r \<in> set (getAllReservations s) \<Longrightarrow> r_id r < reservationCurrentId s"
  by (auto simp: reservationsFiled_def rows_conv)

lemma post_reservations_noDoubleBooking:
  assumes acc: "post_reservations s b = Inr (s', r)" and filed: "reservationsFiled s"
    and ndb: "noDoubleBooking s u"
  shows "noDoubleBooking s' u"
  unfolding noDoubleBooking_def
proof (intro ballI impI)
  fix r1 r2
  assume r1: "r1 \<in> set (getAllReservations s')" and r2: "r2 \<in> set (getAllReservations s')"
    and h: "r_id r1 \<noteq> r_id r2 \<and> status r1 = ''active'' \<and> status r2 = ''active'' \<and>
            wheelchairId r1 = u \<and> wheelchairId r2 = u"
  note rows = post_reservations_rows[OF acc filed]
  have old: "\<not> overlaps (startDate r') (endDate r') (startDate r) (endDate r)"
    if "r' \<in> set (getAllReservations s)" "status r' = ''active''" "wheelchairId r' = wheelchairId r" for r'
    using post_reservations_unblocked[OF acc that(1)] that(2,3) rows(4,5,6)
    by (simp add: blocks_def)
  consider "r1 = r" "r2 = r" | "r1 = r" "r2 \<in> set (getAllReservations s)"
    | "r1 \<in> set (getAllReservations s)" "r2 = r"
    | "r1 \<in> set (getAllReservations s)" "r2 \<in> set (getAllReservations s)"
    using r1 r2 rows(1) by auto
  then show "\<not> overlaps (startDate r1) (endDate r1) (startDate r2) (endDate r2)"
  proof cases
    case 1 with h show ?thesis by simp
  next
    case 2 with h old[of r2] show ?thesis by (simp add: overlaps_sym[of "startDate r"])
  next
    case 3 with h old[of r1] show ?thesis by simp
  next
    case 4 with h ndb show ?thesis unfolding noDoubleBooking_def by blast
  qed
qed

lemma post_reservations_startBeforeEnd:
  assumes acc: "post_reservations s b = Inr (s', r)" and filed: "reservationsFiled s"
    and sbe: "startBeforeEnd s"
  shows "startBeforeEnd s'"
  using sbe post_reservations_rows[OF acc filed] post_reservations_Inr(3)[OF acc]
  by (auto simp: startBeforeEnd_def)


lemma put_reservations_handler_Inr:
  assumes "put_reservations_handler s i p = Inr (s', r)"
  shows "\<exists>ex. getReservation s i = Some ex \<and> r = spreadReservation ex p"
    and "s' = s\<lparr>reservationsData := AList.update i r (reservationsData s)\<rparr>"
    and "put_reservations_check s i p = None"
  using assms
  by (auto simp: put_reservations_handler_def updateReservation_def getReservation_def Let_def
      split: option.splits prod.splits)

lemma put_reservations_check_passed:
  assumes "put_reservations_check s i p = None" and "getReservation s i = Some ex"
    and "pr_startDate p \<noteq> None \<or> pr_endDate p \<noteq> None \<or> truthy (pr_wheelchairId p)"
    and "pr_status p \<noteq> Some ''cancelled''"
  shows "spread (startDate ex) (pr_startDate p) < spread (endDate ex) (pr_endDate p)"
    and "overlappingReservations s i (or_else (pr_wheelchairId p) (wheelchairId ex))
           (spread (startDate ex) (pr_startDate p)) (spread (endDate ex) (pr_endDate p)) = []"
  using assms
  by (auto simp: put_reservations_check_def Let_def split: if_splits)

lemma spreadReservation_fields:
  "r_id (spreadReservation ex p) = r_id ex"
  "status (spreadReservation ex p) = spread (status ex) (pr_status p)"
  "wheelchairId (spreadReservation ex p) = spread (wheelchairId ex) (pr_wheelchairId p)"
  "startDate (spreadReservation ex p) = spread (startDate ex) (pr_startDate p)"
  "endDate (spreadReservation ex p) = spread (endDate ex) (pr_endDate p)"
  by (simp_all add: spreadReservation_def)

lemma filed_lookup:
  assumes "reservationsFiled s" and "getReservation s i = Some ex"
  shows "(i, ex) \<in> set (reservationsData s)" and "r_id ex = i"
    and "ex \<in> set (getAllReservations s)"
proof -
  show m: "(i, ex) \<in> set (reservationsData s)"
    using assms(2) by (simp add: getReservation_def map_of_SomeD)
  with assms(1) show "r_id ex = i" by (auto simp: reservationsFiled_def)
  from m show "ex \<in> set (getAllReservations s)" unfolding rows_conv by force
qed

lemma update_rows:
  assumes filed: "reservationsFiled s" and ex: "getReservation s i = Some ex"
    and r: "r_id r = i"
    and s': "s' = s\<lparr>reservationsData := AList.update i r (reservationsData s)\<rparr>"
  shows "set (getAllReservations s') = {r' \<in> set (getAllReservations s). r_id r' \<noteq> i} \<union> {r}"
    and "reservationsFiled s'"
proof -
  have d: "distinct (map fst (reservationsData s))"
    using filed by (simp add: reservationsFiled_def)
  have key: "r_id (snd kr) = fst kr" if "kr \<in> set (reservationsData s)" for kr
    using filed that by (auto simp: reservationsFiled_def)
  have rows: "set (reservationsData s') = {kv \<in> set (reservationsData s). fst kv \<noteq> i} \<union> {(i, r)}"
    unfolding s' using set_update_distinct[OF d] by simp
  show "set (getAllReservations s') = {r' \<in> set (getAllReservations s). r_id r' \<noteq> i} \<union> {r}"
    unfolding rows_conv rows using key by force
  have "i < reservationCurrentId s"
    using filed filed_lookup(1)[OF filed ex] by (auto simp: reservationsFiled_def)
  then show "reservationsFiled s'"
    unfolding reservationsFiled_def rows
    using d filed r by (auto simp: s' distinct_update reservationsFiled_def)
qed

lemma parse_fields:
  "pr_status (reservationSchema_partial_parse b) = None"
  "pr_wheelchairId (reservationSchema_partial_parse b) = pr_wheelchairId b"
  "pr_startDate (reservationSchema_partial_parse b) = pr_startDate b"
  "pr_endDate (reservationSchema_partial_parse b) = pr_endDate b"
  "pr_clientId (reservationSchema_partial_parse b) = pr_clientId b"
  "pr_notes (reservationSchema_partial_parse b) = pr_notes b"
  by (simp_all add: reservationSchema_partial_parse_def)

text \<open>What an accepted PUT leaves in the row, given the handler saw no status.\<close>

lemma put_accepted_row:
  assumes acc: "put_reservations_handler s i p = Inr (s', r)"
    and nostatus: "pr_status p = None"
    and ex: "getReservation s i = Some ex"
  shows "status r = status ex"
    and "wheelchairId r \<noteq> 0 \<Longrightarrow> pr_startDate p \<noteq> None \<or> pr_endDate p \<noteq> None \<or> pr_wheelchairId p \<noteq> None \<Longrightarrow>
           startDate r < endDate r \<and> overlappingReservations s i (wheelchairId r) (startDate r) (endDate r) = []"
    and "pr_startDate p \<noteq> None \<or> pr_endDate p \<noteq> None \<Longrightarrow> startDate r < endDate r"
    and "pr_startDate p = None \<Longrightarrow> pr_endDate p = None \<Longrightarrow>
           startDate r = startDate ex \<and> endDate r = endDate ex"
    and "pr_wheelchairId p = None \<Longrightarrow> wheelchairId r = wheelchairId ex"
proof -
  from put_reservations_handler_Inr(1)[OF acc] ex
  have r: "r = spreadReservation ex p" by simp
  note chk = put_reservations_handler_Inr(3)[OF acc]
  show "status r = status ex" by (simp add: r spreadReservation_fields nostatus spread_def)
  show "startDate r < endDate r \<and> overlappingReservations s i (wheelchairId r) (startDate r) (endDate r) = []"
    if nz: "wheelchairId r \<noteq> 0" and some: "pr_startDate p \<noteq> None \<or> pr_endDate p \<noteq> None \<or> pr_wheelchairId p \<noteq> None"
  proof -
    have w: "or_else (pr_wheelchairId p) (wheelchairId ex) = wheelchairId r"
      using nz by (auto simp: r spreadReservation_fields spread_def or_else_def split: option.splits)
    have t: "pr_startDate p \<noteq> None \<or> pr_endDate p \<noteq> None \<or> truthy (pr_wheelchairId p)"
      using some nz by (auto simp: truthy_def r spreadReservation_fields spread_def split: option.splits)
    from put_reservations_check_passed[OF chk ex t] nostatus show ?thesis
      by (simp add: r spreadReservation_fields w)
  qed
  show "startDate r < endDate r" if "pr_startDate p \<noteq> None \<or> pr_endDate p \<noteq> None"
    using put_reservations_check_passed(1)[OF chk ex] that nostatus
    by (auto simp: r spreadReservation_fields)
  show "startDate r = startDate ex \<and> endDate r = endDate ex"
    if "pr_startDate p = None" "pr_endDate p = None"
    using that by (simp add: r spreadReservation_fields spread_def)
  show "wheelchairId r = wheelchairId ex" if "pr_wheelchairId p = None"
    using that by (simp add: r spreadReservation_fields spread_def)
qed


lemma overlapping_Nil:
  assumes "overlappingReservations s i u startD endD = []"
    and "r' \<in> set (getAllReservations s)" and "r_id r' \<noteq> i"
    and "status r' = ''active''" and "wheelchairId r' = u"
  shows "\<not> overlaps (startDate r') (endDate r') startD endD"
  using assms by (auto simp: overlappingReservations_def filter_empty_conv overlaps_def)

lemma put_handler_preserves:
  assumes acc: "put_reservations_handler s i p = Inr (s', r)"
    and nostatus: "pr_status p = None"
    and filed: "reservationsFiled s"
  shows "reservationsFiled s'"
    and "startBeforeEnd s \<Longrightarrow> startBeforeEnd s'"
    and "u \<noteq> 0 \<Longrightarrow> noDoubleBooking s u \<Longrightarrow> noDoubleBooking s' u"
proof -
  from put_reservations_handler_Inr(1)[OF acc]
  obtain ex where ex: "getReservation s i = Some ex" and r: "r = spreadReservation ex p"
    by blast
  note exf = filed_lookup[OF filed ex]
  have rid: "r_id r = i" by (simp add: r spreadReservation_fields exf(2))
  note rows = update_rows[OF filed ex rid put_reservations_handler_Inr(2)[OF acc]]
  note row = put_accepted_row[OF acc nostatus ex]
  show "reservationsFiled s'" by (rule rows(2))
  show "startBeforeEnd s'" if sbe: "startBeforeEnd s"
  proof -
    have "startDate r < endDate r"
    proof (cases "pr_startDate p \<noteq> None \<or> pr_endDate p \<noteq> None")
      case True then show ?thesis by (rule row(3))
    next
      case False
      then have "startDate r = startDate ex \<and> endDate r = endDate ex" using row(4) by simp
      with sbe exf(3) show ?thesis by (auto simp: startBeforeEnd_def)
    qed
    with sbe show ?thesis unfolding startBeforeEnd_def rows(1) by auto
  qed
  show "noDoubleBooking s' u" if nz: "u \<noteq> 0" and ndb: "noDoubleBooking s u"
    unfolding noDoubleBooking_def
  proof (intro ballI impI)
    fix r1 r2
    assume r1: "r1 \<in> set (getAllReservations s')" and r2: "r2 \<in> set (getAllReservations s')"
      and h: "r_id r1 \<noteq> r_id r2 \<and> status r1 = ''active'' \<and> status r2 = ''active'' \<and>
              wheelchairId r1 = u \<and> wheelchairId r2 = u"
    have new: "\<not> overlaps (startDate r') (endDate r') (startDate r) (endDate r)"
      if old: "r' \<in> set (getAllReservations s)" "r_id r' \<noteq> i" "status r' = ''active''"
        "wheelchairId r' = u" and ru: "wheelchairId r = u" "status r = ''active''" for r'
    proof (cases "pr_startDate p \<noteq> None \<or> pr_endDate p \<noteq> None \<or> pr_wheelchairId p \<noteq> None")
      case True
      with row(2) ru(1) nz
      have "overlappingReservations s i u (startDate r) (endDate r) = []" by auto
      from overlapping_Nil[OF this old] show ?thesis .
    next
      case False
      with row(4,5) have same: "startDate r = startDate ex" "endDate r = endDate ex"
        "wheelchairId r = wheelchairId ex" by simp_all
      have "status ex = ''active''" using row(1) ru(2) by simp
      with ndb old exf(2,3) ru(1) same show ?thesis
        unfolding noDoubleBooking_def by auto
    qed
    consider "r1 = r" "r2 = r" | "r1 = r" "r2 \<in> set (getAllReservations s)" "r_id r2 \<noteq> i"
      | "r1 \<in> set (getAllReservations s)" "r_id r1 \<noteq> i" "r2 = r"
      | "r1 \<in> set (getAllReservations s)" "r2 \<in> set (getAllReservations s)"
      using r1 r2 unfolding rows(1) by auto
    then show "\<not> overlaps (startDate r1) (endDate r1) (startDate r2) (endDate r2)"
    proof cases
      case 1 with h show ?thesis by simp
    next
      case 2 with h new[of r2] show ?thesis by (simp add: overlaps_sym[of "startDate r"])
    next
      case 3 with h new[of r1] show ?thesis by simp
    next
      case 4 with h ndb show ?thesis unfolding noDoubleBooking_def by blast
    qed
  qed
qed

lemma delete_rows:
  assumes "delete_reservations s i = Inr s'"
  shows "reservationsData s' = AList.delete i (reservationsData s)"
    and "reservationCurrentId s' = reservationCurrentId s"
    and "wheelchairsData s' = wheelchairsData s" and "clientsData s' = clientsData s"
  using assms
  by (auto simp: delete_reservations_def deleteReservation_def split: if_splits bool.splits)

lemma set_delete_subset: "set (AList.delete k al) \<subseteq> set al"
  by (auto simp: AList.delete_eq)

lemma delete_preserves:
  assumes acc: "delete_reservations s i = Inr s'"
  shows "reservationsFiled s \<Longrightarrow> reservationsFiled s'"
    and "startBeforeEnd s \<Longrightarrow> startBeforeEnd s'"
    and "noDoubleBooking s u \<Longrightarrow> noDoubleBooking s' u"
proof -
  note d = delete_rows[OF acc]
  have sub: "set (reservationsData s') \<subseteq> set (reservationsData s)"
    unfolding d(1) by (rule set_delete_subset)
  then have sub': "set (getAllReservations s') \<subseteq> set (getAllReservations s)"
    unfolding rows_conv by auto
  show "reservationsFiled s'" if "reservationsFiled s"
    using that sub unfolding reservationsFiled_def d(2)
    by (auto simp: d(1) distinct_delete)
  show "startBeforeEnd s'" if "startBeforeEnd s"
    using that sub' unfolding startBeforeEnd_def by blast
  show "noDoubleBooking s' u" if "noDoubleBooking s u"
    using that sub' unfolding noDoubleBooking_def by blast
qed

text \<open>The requests on wheelchairs and clients leave the reservations alone.\<close>

lemma other_requests_frame:
  assumes "handle s req = Inr s'"
    and "\<And>b. req \<noteq> PostReservation b" and "\<And>i b. req \<noteq> PutReservation i b"
    and "\<And>i. req \<noteq> DeleteReservation i"
  shows "reservationsData s' = reservationsData s \<and> reservationCurrentId s' = reservationCurrentId s"
  using assms
  by (cases req)
    (auto simp: post_wheelchairs_def put_wheelchairs_def delete_wheelchairs_def
      post_clients_def put_clients_def delete_clients_def
      createWheelchair_def updateWheelchair_def deleteWheelchair_def
      createClient_def updateClient_def deleteClient_def Let_def
      split: option.splits prod.splits bool.splits if_splits)

lemma frame_preserves:
  assumes "reservationsData s' = reservationsData s \<and> reservationCurrentId s' = reservationCurrentId s"
  shows "reservationsFiled s' = reservationsFiled s"
    and "startBeforeEnd s' = startBeforeEnd s"
    and "noDoubleBooking s' u = noDoubleBooking s u"
  using assms
  by (simp_all add: reservationsFiled_def startBeforeEnd_def noDoubleBooking_def
      getAllReservations_def)

lemma handle_preserves:
  assumes acc: "handle s req = Inr s'" and filed: "reservationsFiled s"
  shows "reservationsFiled s'"
    and "startBeforeEnd s \<Longrightarrow> startBeforeEnd s'"
    and "u \<noteq> 0 \<Longrightarrow> noDoubleBooking s u \<Longrightarrow> noDoubleBooking s' u"
proof -
  have "reservationsFiled s' \<and> (startBeforeEnd s \<longrightarrow> startBeforeEnd s') \<and>
        (u \<noteq> 0 \<longrightarrow> noDoubleBooking s u \<longrightarrow> noDoubleBooking s' u)"
  proof (cases req)
    case (PostReservation b)
    with acc obtain r where p: "post_reservations s b = Inr (s', r)"
      by (cases "post_reservations s b") auto
    show ?thesis
      using post_reservations_rows(7)[OF p filed] post_reservations_startBeforeEnd[OF p filed]
        post_reservations_noDoubleBooking[OF p filed] by blast
  next
    case (PutReservation i b)
    with acc obtain r where
      p: "put_reservations_handler s i (reservationSchema_partial_parse b) = Inr (s', r)"
      by (cases "put_reservations s i b") (auto simp: put_reservations_def)
    show ?thesis
      using put_handler_preserves[OF p parse_fields(1) filed] by blast
  next
    case (DeleteReservation i)
    with acc have p: "delete_reservations s i = Inr s'" by simp
    show ?thesis using delete_preserves[OF p] filed by blast
  qed (use other_requests_frame[OF acc] frame_preserves[of s' s] filed in auto)
  then show "reservationsFiled s'"
    and "startBeforeEnd s \<Longrightarrow> startBeforeEnd s'"
    and "u \<noteq> 0 \<Longrightarrow> noDoubleBooking s u \<Longrightarrow> noDoubleBooking s' u"
    by blast+
qed

lemma step_preserves:
  assumes filed: "reservationsFiled s"
  shows "reservationsFiled (step s req)"
    and "startBeforeEnd s \<Longrightarrow> startBeforeEnd (step s req)"
    and "u \<noteq> 0 \<Longrightarrow> noDoubleBooking s u \<Longrightarrow> noDoubleBooking (step s req) u"
proof -
  show "reservationsFiled (step s req)"
    using handle_preserves(1)[OF _ filed] filed
    by (cases "handle s req") (auto simp: step_def)
  show "startBeforeEnd s \<Longrightarrow> startBeforeEnd (step s req)"
    using handle_preserves(2)[OF _ filed]
    by (cases "handle s req") (auto simp: step_def)
  show "u \<noteq> 0 \<Longrightarrow> noDoubleBooking s u \<Longrightarrow> noDoubleBooking (step s req) u"
    using handle_preserves(3)[OF _ filed]
    by (cases "handle s req") (auto simp: step_def)
qed

lemma createWheelchair_frame:
  "reservationsData (fst (createWheelchair s w)) = reservationsData s"
  "reservationCurrentId (fst (createWheelchair s w)) = reservationCurrentId s"
  by (simp_all add: createWheelchair_def Let_def)

lemma initializeData_frame:
  "reservationsData (foldl (\<lambda>st w. fst (createWheelchair st w)) s ws) = reservationsData s"
  "reservationCurrentId (foldl (\<lambda>st w. fst (createWheelchair st w)) s ws) = reservationCurrentId s"
  by (induction ws arbitrary: s) (simp_all add: createWheelchair_frame)

lemma MemStorage_new_reservations:
  "reservationsData MemStorage_new = []" "reservationCurrentId MemStorage_new = 1"
  by (simp_all add: MemStorage_new_def initializeData_def initializeData_frame emptyStore_def)

lemma run_invariants:
  "reservationsFiled (run MemStorage_new reqs) \<and> startBeforeEnd (run MemStorage_new reqs) \<and>
   (\<forall>u. u \<noteq> 0 \<longrightarrow> noDoubleBooking (run MemStorage_new reqs) u)"
proof (induction reqs rule: rev_induct)
  case Nil
  show ?case
    by (simp add: run_def reservationsFiled_def startBeforeEnd_def noDoubleBooking_def
        getAllReservations_def Map_values_def MemStorage_new_reservations)
next
  case (snoc req reqs)
  have "run MemStorage_new (reqs @ [req]) = step (run MemStorage_new reqs) req"
    by (simp add: run_def)
  with snoc step_preserves[where s = "run MemStorage_new reqs" and req = req] show ?case by auto
qed

subsection \<open>Wheelchair counters, clients and single rows\<close>

lemma overlappingReservations_Nil_iff:
  assumes "\<forall>r \<in> set (getAllReservations s). r_id r \<noteq> x"
  shows "overlappingReservations s x u startD endD = [] \<longleftrightarrow>
         \<not> list_ex (\<lambda>r. blocks r u startD endD) (getAllReservations s)"
  using assms
  by (auto simp: overlappingReservations_def filter_empty_conv list_ex_iff blocks_def overlaps_def)

lemma getActiveReservations_set:
  "set (getActiveReservations s today) =
     {r \<in> set (getAllReservations s). status r = ''active'' \<and> endDate r \<ge> today}"
  by (auto simp: getActiveReservations_def getAllReservations_def)

lemma getWheelchair_increment:
  "getWheelchair (fst (incrementWheelchairRentalCount s u)) v =
     (if v = u then map_option (\<lambda>w. w\<lparr>rentalCount := Some (rentalCountOr0 w + 1)\<rparr>) (getWheelchair s v)
      else getWheelchair s v)"
  by (auto simp: incrementWheelchairRentalCount_def getWheelchair_def update_conv'
      split: option.splits)

lemma getWheelchair_createReservation:
  "getWheelchair (fst (createReservation s b)) v =
     (if v = wheelchairId b
      then map_option (\<lambda>w. w\<lparr>rentalCount := Some (rentalCountOr0 w + 1)\<rparr>) (getWheelchair s v)
      else getWheelchair s v)"
  by (simp add: createReservation_def Let_def getWheelchair_increment)
    (simp add: getWheelchair_def)

lemma getReservation_createReservation:
  "getReservation (fst (createReservation s b)) (reservationCurrentId s) =
     Some (snd (createReservation s b))"
  by (simp add: getReservation_def createReservation_reservations update_conv')

lemma rentalCountOr0_incremented:
  "rentalCountOr0 (w\<lparr>rentalCount := Some (rentalCountOr0 w + 1)\<rparr>) = rentalCountOr0 w + 1"
  by (simp add: rentalCountOr0_def)

lemma updateReservation_wheelchairs:
  "wheelchairsData (fst (updateReservation s i p)) = wheelchairsData s"
  by (simp add: updateReservation_def Let_def split: option.splits)

lemma deleteReservation_wheelchairs:
  "wheelchairsData (fst (deleteReservation s i)) = wheelchairsData s"
  by (simp add: deleteReservation_def)

lemma put_clients_Inr:
  assumes "put_clients s i p = Inr (s', c')"
  shows "\<exists>c. getClient s i = Some c \<and> c' = spreadClient c p"
    and "clientsData s' = AList.update i c' (clientsData s)"
  using assms
  by (auto simp: put_clients_def updateClient_def getClient_def Let_def
      split: option.splits prod.splits)

lemma run_filed: "reservationsFiled (run MemStorage_new reqs)"
  using run_invariants by blast

lemma createReservation_counter_and_lookup:
  "reservationCurrentId (fst (createReservation s b)) = reservationCurrentId s + 1"
  "getReservation (fst (createReservation s b)) (r_id (snd (createReservation s b))) =
     Some (snd (createReservation s b))"
  by (simp_all add: createReservation_reservations createReservation_row
      getReservation_def update_conv')

lemma filed_counter_unused: "reservationsFiled s \<Longrightarrow> getReservation s (reservationCurrentId s) = None"
  using filed_fresh[of s] by (simp add: getReservation_def map_of_eq_None_iff)

subsection \<open>The status test of the update handler\<close>

text \<open>
  The handler skips its whole check block when \<open>req.body.status\<close> is \<open>cancelled\<close>.
  Handed a body with that status and an end date before the start date, it would store
  the row as it is. The route never hands it one: the parsed body has no status.
\<close>

lemma put_reservations_check_skipped_when_cancelled:
  "pr_status p = Some ''cancelled'' \<Longrightarrow> put_reservations_check s i p = None"
  by (simp add: put_reservations_check_def)

lemma put_reservations_handler_if_status_came_through:
  "map (\<lambda>r. (startDate r, endDate r, status r))
     (getAllReservations (fst (projr (put_reservations_handler oneBooking 1 (cancelWithDates 19735 19725)))))
   = [(day 19735, day 19725, ''cancelled'')]"
  by code_simp

text \<open>
  A consequence: no request changes the status of a reservation. Every reservation the
  server has stored is \<open>active\<close>, and a \<open>PUT\<close> that asks for \<open>cancelled\<close> or
  \<open>completed\<close> leaves the status as it was.
\<close>

lemma handle_keeps_active:
  assumes acc: "handle s req = Inr s'" and filed: "reservationsFiled s"
    and act: "\<forall>r \<in> set (getAllReservations s). status r = ''active''"
  shows "\<forall>r \<in> set (getAllReservations s'). status r = ''active''"
proof (cases req)
  case (PostReservation b)
  with acc obtain r where p: "post_reservations s b = Inr (s', r)"
    by (cases "post_reservations s b") auto
  from post_reservations_rows(1,3)[OF p filed] act show ?thesis by auto
next
  case (PutReservation i b)
  with acc obtain r where
    p: "put_reservations_handler s i (reservationSchema_partial_parse b) = Inr (s', r)"
    by (cases "put_reservations s i b") (auto simp: put_reservations_def)
  from put_reservations_handler_Inr(1)[OF p]
  obtain ex where ex: "getReservation s i = Some ex"
    and r: "r = spreadReservation ex (reservationSchema_partial_parse b)" by blast
  have rid: "r_id r = i" by (simp add: r spreadReservation_fields filed_lookup(2)[OF filed ex])
  have "status r = ''active''"
    using put_accepted_row(1)[OF p parse_fields(1) ex] filed_lookup(3)[OF filed ex] act by simp
  with update_rows(1)[OF filed ex rid put_reservations_handler_Inr(2)[OF p]] act
  show ?thesis by auto
next
  case (DeleteReservation i)
  with acc have p: "delete_reservations s i = Inr s'" by simp
  have "set (getAllReservations s') \<subseteq> set (getAllReservations s)"
    unfolding rows_conv delete_rows(1)[OF p] using set_delete_subset by fast
  with act show ?thesis by blast
qed (use other_requests_frame[OF acc] act in \<open>auto simp: getAllReservations_def\<close>)

lemma run_all_active:
  "\<forall>r \<in> set (getAllReservations (run MemStorage_new reqs)). status r = ''active''"
proof (induction reqs rule: rev_induct)
  case Nil
  show ?case
    by (simp add: run_def getAllReservations_def Map_values_def MemStorage_new_reservations)
next
  case (snoc req reqs)
  have st: "run MemStorage_new (reqs @ [req]) = step (run MemStorage_new reqs) req"
    by (simp add: run_def)
  show ?case
  proof (cases "handle (run MemStorage_new reqs) req")
    case (Inl e)
    with snoc st show ?thesis by (simp add: step_def)
  next
    case (Inr s')
    from handle_keeps_active[OF Inr run_filed snoc] st Inr show ?thesis
      by (simp add: step_def)
  qed
qed

subsection \<open>The identifiers of the wheelchairs\<close>

text \<open>
  The store numbers its wheelchairs from 1 and no request files a wheelchair under
  another key than the one the counter gave: the identifier 0 is never a wheelchair's.
  For every identifier other than 0, and so for every wheelchair the store holds, two
  distinct active reservations never overlap in a store the server reaches.
\<close>

lemma dom_update_existing:
  assumes "map_of al i = Some w"
  shows "fst ` set (AList.update i v al) = fst ` set al"
proof -
  from assms have "(i, w) \<in> set al" by (rule map_of_SomeD)
  then have "i \<in> fst ` set al" by force
  then show ?thesis by (simp add: dom_update insert_absorb)
qed

lemma increment_wheelchair_keys:
  "fst ` set (wheelchairsData (fst (incrementWheelchairRentalCount s i))) =
     fst ` set (wheelchairsData s)"
  "wheelchairCurrentId (fst (incrementWheelchairRentalCount s i)) = wheelchairCurrentId s"
proof -
  show "fst ` set (wheelchairsData (fst (incrementWheelchairRentalCount s i))) =
     fst ` set (wheelchairsData s)"
  proof (cases "map_of (wheelchairsData s) i")
    case None
    then show ?thesis by (simp add: incrementWheelchairRentalCount_def)
  next
    case (Some w)
    then show ?thesis
      by (simp add: incrementWheelchairRentalCount_def dom_update_existing[OF Some])
  qed
  show "wheelchairCurrentId (fst (incrementWheelchairRentalCount s i)) = wheelchairCurrentId s"
    by (simp add: incrementWheelchairRentalCount_def split: option.splits)
qed

lemma createReservation_wheelchair_keys:
  "fst ` set (wheelchairsData (fst (createReservation s b))) = fst ` set (wheelchairsData s)"
  "wheelchairCurrentId (fst (createReservation s b)) = wheelchairCurrentId s"
  by (simp_all add: createReservation_def Let_def increment_wheelchair_keys)

lemma updateWheelchair_keys:
  "fst ` set (wheelchairsData (fst (updateWheelchair s i p))) = fst ` set (wheelchairsData s)"
  "wheelchairCurrentId (fst (updateWheelchair s i p)) = wheelchairCurrentId s"
proof -
  show "fst ` set (wheelchairsData (fst (updateWheelchair s i p))) = fst ` set (wheelchairsData s)"
  proof (cases "map_of (wheelchairsData s) i")
    case None
    then show ?thesis by (simp add: updateWheelchair_def)
  next
    case (Some w)
    then show ?thesis
      by (simp add: updateWheelchair_def Let_def dom_update_existing[OF Some])
  qed
  show "wheelchairCurrentId (fst (updateWheelchair s i p)) = wheelchairCurrentId s"
    by (simp add: updateWheelchair_def Let_def split: option.splits)
qed

lemma handle_wheelchair_keys:
  assumes acc: "handle s req = Inr s'"
    and cur: "1 \<le> wheelchairCurrentId s"
    and keys: "\<forall>k \<in> fst ` set (wheelchairsData s). 1 \<le> k"
  shows "1 \<le> wheelchairCurrentId s' \<and> (\<forall>k \<in> fst ` set (wheelchairsData s'). 1 \<le> k)"
proof (cases req)
  case (PostReservation b)
  with acc obtain r where p: "post_reservations s b = Inr (s', r)"
    by (cases "post_reservations s b") auto
  from post_reservations_Inr(5)[OF p] have s': "s' = fst (createReservation s b)" by simp
  show ?thesis unfolding s' createReservation_wheelchair_keys using cur keys by simp
next
  case (PutReservation i b)
  with acc obtain r where
    p: "put_reservations_handler s i (reservationSchema_partial_parse b) = Inr (s', r)"
    by (cases "put_reservations s i b") (auto simp: put_reservations_def)
  show ?thesis unfolding put_reservations_handler_Inr(2)[OF p] using cur keys by simp
next
  case (DeleteReservation i)
  with acc have p: "delete_reservations s i = Inr s'" by simp
  have "wheelchairsData s' = wheelchairsData s" by (rule delete_rows(3)[OF p])
  moreover have "wheelchairCurrentId s' = wheelchairCurrentId s"
    using p by (auto simp: delete_reservations_def deleteReservation_def split: bool.splits)
  ultimately show ?thesis using cur keys by simp
next
  case (PostWheelchair b)
  with acc have s': "s' = fst (createWheelchair s b)" by (simp add: post_wheelchairs_def)
  have "wheelchairCurrentId s' = wheelchairCurrentId s + 1"
    by (simp add: s' createWheelchair_def Let_def)
  moreover have "fst ` set (wheelchairsData s') =
      {wheelchairCurrentId s} \<union> fst ` set (wheelchairsData s)"
    by (simp add: s' createWheelchair_def Let_def dom_update)
  ultimately show ?thesis using cur keys by simp
next
  case (PutWheelchair i b)
  with acc have s': "s' = fst (updateWheelchair s i b)"
    by (cases "updateWheelchair s i b") (auto simp: put_wheelchairs_def split: option.splits)
  show ?thesis unfolding s' updateWheelchair_keys using cur keys by simp
next
  case (DeleteWheelchair i)
  with acc have s': "s' = fst (deleteWheelchair s i)"
    by (auto simp: delete_wheelchairs_def deleteWheelchair_def split: bool.splits)
  have c: "wheelchairCurrentId s' = wheelchairCurrentId s" by (simp add: s' deleteWheelchair_def)
  have "fst ` set (wheelchairsData s') \<subseteq> fst ` set (wheelchairsData s)"
    unfolding s' by (simp add: deleteWheelchair_def dom_delete_subset)
  with keys have "\<forall>k \<in> fst ` set (wheelchairsData s'). 1 \<le> k" by blast
  with cur show ?thesis unfolding c by blast
next
  case (PostClient b)
  with acc have "s' = fst (createClient s b)" by (simp add: post_clients_def)
  then show ?thesis using cur keys by (simp add: createClient_def Let_def)
next
  case (PutClient i b)
  with acc have "s' = fst (updateClient s i b)"
    by (cases "updateClient s i b") (auto simp: put_clients_def split: option.splits)
  then show ?thesis using cur keys by (simp add: updateClient_def Let_def split: option.splits)
next
  case (DeleteClient i)
  with acc have "s' = fst (deleteClient s i)"
    by (auto simp: delete_clients_def deleteClient_def split: bool.splits)
  then show ?thesis using cur keys by (simp add: deleteClient_def)
qed

lemma run_wheelchair_keys:
  "1 \<le> wheelchairCurrentId (run MemStorage_new reqs) \<and>
   (\<forall>k \<in> fst ` set (wheelchairsData (run MemStorage_new reqs)). 1 \<le> k)"
proof (induction reqs rule: rev_induct)
  case Nil
  have "1 \<le> wheelchairCurrentId MemStorage_new \<and>
        list_all (\<lambda>k. 1 \<le> k) (map fst (wheelchairsData MemStorage_new))"
    by code_simp
  then show ?case by (auto simp: run_def list_all_iff)
next
  case (snoc req reqs)
  have st: "run MemStorage_new (reqs @ [req]) = step (run MemStorage_new reqs) req"
    by (simp add: run_def)
  show ?case
  proof (cases "handle (run MemStorage_new reqs) req")
    case (Inl e)
    with snoc st show ?thesis by (simp add: step_def)
  next
    case (Inr s')
    from snoc have "1 \<le> wheelchairCurrentId (run MemStorage_new reqs)"
      and "\<forall>k \<in> fst ` set (wheelchairsData (run MemStorage_new reqs)). 1 \<le> k"
      by simp_all
    from handle_wheelchair_keys[OF Inr this] st Inr show ?thesis by (simp add: step_def)
  qed
qed

lemma no_wheelchair_zero: "getWheelchair (run MemStorage_new reqs) 0 = None"
proof (rule ccontr)
  assume "getWheelchair (run MemStorage_new reqs) 0 \<noteq> None"
  then obtain w where "map_of (wheelchairsData (run MemStorage_new reqs)) 0 = Some w"
    by (auto simp: getWheelchair_def)
  then have "(0::int) \<in> fst ` set (wheelchairsData (run MemStorage_new reqs))"
    by (auto dest!: map_of_SomeD intro: rev_image_eqI)
  with run_wheelchair_keys[of reqs] show False by auto
qed

lemma noDoubleBooking_of_wheelchairs:
  "u \<noteq> 0 \<Longrightarrow> noDoubleBooking (run MemStorage_new reqs) u"
  "getWheelchair (run MemStorage_new reqs) u \<noteq> None \<Longrightarrow> noDoubleBooking (run MemStorage_new reqs) u"
proof -
  show "noDoubleBooking (run MemStorage_new reqs) u" if "u \<noteq> 0"
    using that run_invariants by blast
  then show "noDoubleBooking (run MemStorage_new reqs) u"
    if "getWheelchair (run MemStorage_new reqs) u \<noteq> None"
    using that no_wheelchair_zero[of reqs] by (cases "u = 0") auto
qed

section \<open>The claims\<close>

subsection \<open>C1: no double-booking\<close>

text \<open>
  C1. In every store the server reaches by accepted requests, and for every wheelchair
  identifier \<open>u\<close>, two distinct active reservations on \<open>u\<close> do not overlap under the
  inclusive rule. The code breaks this at the identifier 0. The update handler tests
  \<open>req.body.wheelchairId\<close> for truthiness, so a body \<open>{ wheelchairId: 0 }\<close> skips the
  block that its own comment announces for every update of the wheelchair, and
  \<open>updateReservation\<close> then files the reservation under wheelchair 0, which
  \<open>POST /reservations\<close> would refuse as a wheelchair that does not exist. The five
  requests of \<open>movedToZero\<close> are all accepted and leave two active reservations of the
  same days on the identifier 0.
\<close>

theorem double_booking_on_id_zero:
  "allAccepted MemStorage_new movedToZero \<and>
   map (\<lambda>r. (r_id r, wheelchairId r, status r, startDate r, endDate r))
     (getAllReservations (run MemStorage_new movedToZero)) =
     [(1, 0, ''active'', day 19723, day 19732), (2, 0, ''active'', day 19723, day 19732)] \<and>
   overlaps (day 19723) (day 19732) (day 19723) (day 19732)"
  by code_simp

text \<open>The same store, measured by the property itself.\<close>

lemma movedToZero_is_double_booked:
  "\<not> noDoubleBooking (run MemStorage_new movedToZero) 0"
  by code_simp

subsection \<open>C2: what checkAvailability returns\<close>

text \<open>
  C2. \<open>checkAvailability\<close> returns the stored wheelchairs, in the store's order, whose
  identifier no active reservation overlapping \<open>[startD, endD]\<close> (inclusive rule)
  references, and \<open>available\<close> says whether that list is non-empty. A wheelchair whose
  reservations are all completed or cancelled is in the list; an active reservation that
  shares only a boundary day with the range keeps its wheelchair out of it. The function
  only reads the store: in the embedding it takes the store and returns the result, and
  no new store.
\<close>

theorem checkAvailability_exact:
  "availableWheelchairs (checkAvailability s startD endD) =
     filter (\<lambda>w. \<not> list_ex (\<lambda>r. blocks r (w_id w) startD endD) (getAllReservations s))
       (getAllWheelchairs s)
   \<and> available (checkAvailability s startD endD) =
       (availableWheelchairs (checkAvailability s startD endD) \<noteq> [])
   \<and> (w \<in> set (getAllWheelchairs s) \<and>
        (\<forall>r \<in> set (getAllReservations s).
           wheelchairId r = w_id w \<longrightarrow> status r = ''completed'' \<or> status r = ''cancelled'')
        \<longrightarrow> w \<in> set (availableWheelchairs (checkAvailability s startD endD)))
   \<and> (r \<in> set (getAllReservations s) \<and>
        status r = ''active'' \<and> startDate r \<le> endDate r \<and> startD \<le> endD \<and>
        (endDate r = startD \<or> startDate r = endD)
        \<longrightarrow> wheelchairId r \<notin> w_id ` set (availableWheelchairs (checkAvailability s startD endD)))"
proof (intro conjI)
  show "available (checkAvailability s startD endD) =
       (availableWheelchairs (checkAvailability s startD endD) \<noteq> [])"
    by (simp add: checkAvailability_def Let_def)
  show "w \<in> set (getAllWheelchairs s) \<and>
        (\<forall>r \<in> set (getAllReservations s).
           wheelchairId r = w_id w \<longrightarrow> status r = ''completed'' \<or> status r = ''cancelled'')
        \<longrightarrow> w \<in> set (availableWheelchairs (checkAvailability s startD endD))"
    by (auto simp: availableWheelchairs_eq list_ex_iff blocks_def)
  show "r \<in> set (getAllReservations s) \<and>
        status r = ''active'' \<and> startDate r \<le> endDate r \<and> startD \<le> endD \<and>
        (endDate r = startD \<or> startDate r = endD)
        \<longrightarrow> wheelchairId r \<notin> w_id ` set (availableWheelchairs (checkAvailability s startD endD))"
    by (auto simp: availableWheelchairs_eq list_ex_iff blocks_def overlaps_def)
qed (rule availableWheelchairs_eq)

text \<open>
  The theorem at the store \<open>threeStatuses\<close> and the range 2024-01-10 to 2024-01-15, whose
  first day is the last day of the three reservations: wheelchair 1 (active) is out,
  wheelchairs 2 (completed) and 3 (cancelled) are in; from 2024-01-11 on wheelchair 1 is
  in again.
\<close>

theorem checkAvailability_exact_witness:
  "map status (filter (\<lambda>r. wheelchairId r = 2) (getAllReservations threeStatuses)) = [''completed'']
   \<and> map status (filter (\<lambda>r. wheelchairId r = 3) (getAllReservations threeStatuses)) = [''cancelled'']
   \<and> map (\<lambda>r. (status r, startDate r, endDate r))
        (filter (\<lambda>r. wheelchairId r = 1) (getAllReservations threeStatuses))
      = [(''active'', day 19723, day 19732)]
   \<and> map w_id (availableWheelchairs (checkAvailability threeStatuses (day 19732) (day 19737)))
      = [2, 3, 4, 5, 6, 7, 8, 9, 10, 11, 12, 13, 14, 15]
   \<and> available (checkAvailability threeStatuses (day 19732) (day 19737))
   \<and> 1 \<in> w_id ` set (availableWheelchairs (checkAvailability threeStatuses (day 19733) (day 19737)))"
proof -
  let ?s = threeStatuses
  let ?r = "hd (getAllReservations ?s)"
  have r: "?r \<in> set (getAllReservations ?s) \<and> status ?r = ''active'' \<and>
           startDate ?r \<le> endDate ?r \<and> day 19732 \<le> day 19737 \<and>
           (endDate ?r = day 19732 \<or> startDate ?r = day 19737)"
    by code_simp
  have one: "wheelchairId ?r = 1" by code_simp
  from checkAvailability_exact[of ?s "day 19732" "day 19737" _ ?r] r one
  have "1 \<notin> w_id ` set (availableWheelchairs (checkAvailability ?s (day 19732) (day 19737)))"
    by metis
  moreover have "map w_id (getAllWheelchairs ?s) = [1, 2, 3, 4, 5, 6, 7, 8, 9, 10, 11, 12, 13, 14, 15]"
    by code_simp
  moreover have "map status (filter (\<lambda>r. wheelchairId r = 2) (getAllReservations ?s)) = [''completed'']"
    "map status (filter (\<lambda>r. wheelchairId r = 3) (getAllReservations ?s)) = [''cancelled'']"
    "map (\<lambda>r. (status r, startDate r, endDate r))
        (filter (\<lambda>r. wheelchairId r = 1) (getAllReservations ?s))
      = [(''active'', day 19723, day 19732)]"
    "map w_id (availableWheelchairs (checkAvailability ?s (day 19732) (day 19737)))
      = [2, 3, 4, 5, 6, 7, 8, 9, 10, 11, 12, 13, 14, 15]"
    "available (checkAvailability ?s (day 19732) (day 19737))"
    "1 \<in> w_id ` set (availableWheelchairs (checkAvailability ?s (day 19733) (day 19737)))"
    by code_simp+
  ultimately show ?thesis by blast
qed

subsection \<open>C3: the update gate agrees with checkAvailability\<close>

text \<open>
  C3. For a wheelchair identifier \<open>u\<close> that some stored wheelchair has, and an excluded
  identifier \<open>x\<close> that no stored reservation has (nothing is excluded), the filter of
  the update path finds no reservation for \<open>u\<close> and the range exactly when no active
  reservation on \<open>u\<close> overlaps the range, and exactly when \<open>u\<close> is among the
  \<open>availableWheelchairs\<close> of \<open>checkAvailability\<close> for the same range.
\<close>

theorem update_gate_agrees_with_checkAvailability:
  "(\<exists>w \<in> set (getAllWheelchairs s). w_id w = u) \<and>
   (\<forall>r \<in> set (getAllReservations s). r_id r \<noteq> x)
   \<longrightarrow>
   ((overlappingReservations s x u startD endD = []) =
      (\<not> list_ex (\<lambda>r. blocks r u startD endD) (getAllReservations s))) \<and>
   ((overlappingReservations s x u startD endD = []) =
      (u \<in> w_id ` set (availableWheelchairs (checkAvailability s startD endD))))"
proof (intro impI, elim conjE)
  assume w: "\<exists>w \<in> set (getAllWheelchairs s). w_id w = u"
    and x: "\<forall>r \<in> set (getAllReservations s). r_id r \<noteq> x"
  note a = overlappingReservations_Nil_iff[OF x, of u startD endD]
  have "u \<in> w_id ` set (availableWheelchairs (checkAvailability s startD endD)) \<longleftrightarrow>
        \<not> list_ex (\<lambda>r. blocks r u startD endD) (getAllReservations s)"
    using w unfolding availableWheelchairs_eq by auto
  with a show "((overlappingReservations s x u startD endD = []) =
      (\<not> list_ex (\<lambda>r. blocks r u startD endD) (getAllReservations s))) \<and>
   ((overlappingReservations s x u startD endD = []) =
      (u \<in> w_id ` set (availableWheelchairs (checkAvailability s startD endD))))"
    by simp
qed

text \<open>
  The theorem at the store \<open>oneBooking\<close>, wheelchair 1 and the excluded identifier 0: both
  tests refuse the range from 2024-01-10 and both allow the range from 2024-01-11.
\<close>

theorem update_gate_agrees_with_checkAvailability_witness:
  "list_ex (\<lambda>w. w_id w = 1) (getAllWheelchairs oneBooking) \<and>
   list_all (\<lambda>r. r_id r \<noteq> 0) (getAllReservations oneBooking) \<and>
   overlappingReservations oneBooking 0 1 (day 19732) (day 19737) \<noteq> [] \<and>
   1 \<notin> w_id ` set (availableWheelchairs (checkAvailability oneBooking (day 19732) (day 19737))) \<and>
   overlappingReservations oneBooking 0 1 (day 19733) (day 19737) = [] \<and>
   1 \<in> w_id ` set (availableWheelchairs (checkAvailability oneBooking (day 19733) (day 19737)))"
proof -
  have w: "list_ex (\<lambda>w. w_id w = 1) (getAllWheelchairs oneBooking)" by code_simp
  have x: "list_all (\<lambda>r. r_id r \<noteq> 0) (getAllReservations oneBooking)" by code_simp
  have hyp: "(\<exists>w \<in> set (getAllWheelchairs oneBooking). w_id w = 1) \<and>
             (\<forall>r \<in> set (getAllReservations oneBooking). r_id r \<noteq> 0)"
    using w x by (simp add: list_ex_iff list_all_iff)
  have o1: "overlappingReservations oneBooking 0 1 (day 19732) (day 19737) \<noteq> []" by code_simp
  have o2: "overlappingReservations oneBooking 0 1 (day 19733) (day 19737) = []" by code_simp
  from update_gate_agrees_with_checkAvailability[of oneBooking 1 0 "day 19732" "day 19737"] hyp o1
  have a1: "1 \<notin> w_id ` set (availableWheelchairs (checkAvailability oneBooking (day 19732) (day 19737)))"
    by metis
  from update_gate_agrees_with_checkAvailability[of oneBooking 1 0 "day 19733" "day 19737"] hyp o2
  have a2: "1 \<in> w_id ` set (availableWheelchairs (checkAvailability oneBooking (day 19733) (day 19737)))"
    by metis
  from w x o1 a1 o2 a2 show ?thesis by blast
qed

subsection \<open>C4: the checks of POST /reservations\<close>

text \<open>
  C4. \<open>POST /reservations\<close> checks, in this order, that the client exists, that the
  wheelchair exists, that the start is strictly before the end and that the wheelchair is
  among the available ones for the range; the first check that fails decides the error.
  When all four hold the request succeeds: the reservation gets the identifier the
  counter held, the counter moves on by one, the status is \<open>active\<close>, the row is stored
  under its identifier, and the wheelchair's rental count, \<open>n\<close> before the request, is
  \<open>n + 1\<close> after it (a count that was \<open>null\<close> is 1 after it), every other wheelchair
  being as it was. The identifier is fresh in every store that files its reservations as
  the store's own operations do, and every store the server reaches does.
\<close>

theorem post_reservations_checks_in_order:
  "(getClient s (clientId b) = None \<longrightarrow>
      post_reservations s b = Inl (HttpError 400 ''Client not found''))
   \<and> (getClient s (clientId b) \<noteq> None \<and> getWheelchair s (wheelchairId b) = None \<longrightarrow>
      post_reservations s b = Inl (HttpError 400 ''Wheelchair not found''))
   \<and> (getClient s (clientId b) \<noteq> None \<and> getWheelchair s (wheelchairId b) \<noteq> None \<and>
       \<not> startDate b < endDate b \<longrightarrow>
      post_reservations s b = Inl (HttpError 400 ''End date must be after start date''))
   \<and> (getClient s (clientId b) \<noteq> None \<and> getWheelchair s (wheelchairId b) \<noteq> None \<and>
       startDate b < endDate b \<and>
       wheelchairId b \<notin> w_id ` set (availableWheelchairs (checkAvailability s (startDate b) (endDate b)))
       \<longrightarrow>
      post_reservations s b =
        Inl (HttpError 400 ''Wheelchair is not available for the requested dates''))
   \<and> (getClient s (clientId b) \<noteq> None \<and> getWheelchair s (wheelchairId b) = Some w \<and>
       startDate b < endDate b \<and>
       wheelchairId b \<in> w_id ` set (availableWheelchairs (checkAvailability s (startDate b) (endDate b)))
       \<longrightarrow>
      (\<exists>s' r. post_reservations s b = Inr (s', r) \<and>
         r = \<lparr>clientId = clientId b, wheelchairId = wheelchairId b, startDate = startDate b,
              endDate = endDate b, r_notes = r_notes b, r_id = reservationCurrentId s,
              status = ''active''\<rparr> \<and>
         reservationCurrentId s' = reservationCurrentId s + 1 \<and>
         getReservation s' (r_id r) = Some r \<and>
         (rentalCount w = Some n \<longrightarrow>
            getWheelchair s' (wheelchairId b) = Some (w\<lparr>rentalCount := Some (n + 1)\<rparr>)) \<and>
         (rentalCount w = None \<longrightarrow>
            getWheelchair s' (wheelchairId b) = Some (w\<lparr>rentalCount := Some 1\<rparr>)) \<and>
         (v \<noteq> wheelchairId b \<longrightarrow> getWheelchair s' v = getWheelchair s v) \<and>
         (reservationsFiled s \<longrightarrow> getReservation s (r_id r) = None)))
   \<and> reservationsFiled (run MemStorage_new reqs)"
proof (intro conjI impI)
  assume a: "getClient s (clientId b) \<noteq> None \<and> getWheelchair s (wheelchairId b) = Some w \<and>
       startDate b < endDate b \<and>
       wheelchairId b \<in> w_id ` set (availableWheelchairs (checkAvailability s (startDate b) (endDate b)))"
  let ?s' = "fst (createReservation s b)" and ?r = "snd (createReservation s b)"
  from a have p: "post_reservations s b = Inr (?s', ?r)"
    by (auto simp: post_reservations_def Let_def list_ex_iff)
  have w: "getWheelchair s (wheelchairId b) = Some w" using a by simp
  show "\<exists>s' r. post_reservations s b = Inr (s', r) \<and>
         r = \<lparr>clientId = clientId b, wheelchairId = wheelchairId b, startDate = startDate b,
              endDate = endDate b, r_notes = r_notes b, r_id = reservationCurrentId s,
              status = ''active''\<rparr> \<and>
         reservationCurrentId s' = reservationCurrentId s + 1 \<and>
         getReservation s' (r_id r) = Some r \<and>
         (rentalCount w = Some n \<longrightarrow>
            getWheelchair s' (wheelchairId b) = Some (w\<lparr>rentalCount := Some (n + 1)\<rparr>)) \<and>
         (rentalCount w = None \<longrightarrow>
            getWheelchair s' (wheelchairId b) = Some (w\<lparr>rentalCount := Some 1\<rparr>)) \<and>
         (v \<noteq> wheelchairId b \<longrightarrow> getWheelchair s' v = getWheelchair s v) \<and>
         (reservationsFiled s \<longrightarrow> getReservation s (r_id r) = None)"
  proof (intro exI conjI impI)
    show "post_reservations s b = Inr (?s', ?r)" by (rule p)
    show "?r = \<lparr>clientId = clientId b, wheelchairId = wheelchairId b, startDate = startDate b,
              endDate = endDate b, r_notes = r_notes b, r_id = reservationCurrentId s,
              status = ''active''\<rparr>" by (rule createReservation_row)
    show "reservationCurrentId ?s' = reservationCurrentId s + 1"
      by (rule createReservation_counter_and_lookup(1))
    show "getReservation ?s' (r_id ?r) = Some ?r"
      by (rule createReservation_counter_and_lookup(2))
    show "getWheelchair ?s' (wheelchairId b) = Some (w\<lparr>rentalCount := Some (n + 1)\<rparr>)"
      if "rentalCount w = Some n"
      using w that by (simp add: getWheelchair_createReservation rentalCountOr0_def)
    show "getWheelchair ?s' (wheelchairId b) = Some (w\<lparr>rentalCount := Some 1\<rparr>)"
      if "rentalCount w = None"
      using w that by (simp add: getWheelchair_createReservation rentalCountOr0_def)
    show "getWheelchair ?s' v = getWheelchair s v" if "v \<noteq> wheelchairId b"
      using that by (simp add: getWheelchair_createReservation)
    show "getReservation s (r_id ?r) = None" if "reservationsFiled s"
      using that by (simp add: createReservation_row filed_counter_unused)
  qed
next
  show "reservationsFiled (run MemStorage_new reqs)" by (rule run_filed)
qed (auto simp: post_reservations_def Let_def list_ex_iff image_iff split: option.splits)

text \<open>
  The theorem at the store \<open>oneBooking\<close>: a body that fails all four checks, one that
  fails the last three, one that fails the last two, one that fails the last, and a
  second booking of wheelchair 1 that passes: it gets the identifier 2, the counter goes
  from 2 to 3, and the rental count of wheelchair 1 goes from 1 to 2 while the count of
  wheelchair 2 stays 0.
\<close>

theorem post_reservations_checks_in_order_witness:
  "post_reservations oneBooking (unknownClient (booking 99 19732 19723)) =
     Inl (HttpError 400 ''Client not found'') \<and>
   post_reservations oneBooking (booking 99 19732 19723) =
     Inl (HttpError 400 ''Wheelchair not found'') \<and>
   post_reservations oneBooking (booking 1 19732 19723) =
     Inl (HttpError 400 ''End date must be after start date'') \<and>
   post_reservations oneBooking (booking 1 19730 19740) =
     Inl (HttpError 400 ''Wheelchair is not available for the requested dates'') \<and>
   map_sum id snd (post_reservations oneBooking (booking 1 19733 19737)) =
     Inr \<lparr>clientId = 1, wheelchairId = 1, startDate = day 19733, endDate = day 19737,
          r_notes = None, r_id = 2, status = ''active''\<rparr> \<and>
   getReservation oneBooking 2 = None \<and>
   getReservation (step oneBooking (PostReservation (booking 1 19733 19737))) 2 =
     Some \<lparr>clientId = 1, wheelchairId = 1, startDate = day 19733, endDate = day 19737,
           r_notes = None, r_id = 2, status = ''active''\<rparr> \<and>
   reservationCurrentId oneBooking = 2 \<and>
   reservationCurrentId (step oneBooking (PostReservation (booking 1 19733 19737))) = 3 \<and>
   map_option rentalCount (getWheelchair oneBooking 1) = Some (Some 1) \<and>
   map_option rentalCount
     (getWheelchair (step oneBooking (PostReservation (booking 1 19733 19737))) 1) = Some (Some 2) \<and>
   map_option rentalCount (getWheelchair oneBooking 2) = Some (Some 0) \<and>
   map_option rentalCount
     (getWheelchair (step oneBooking (PostReservation (booking 1 19733 19737))) 2) = Some (Some 0)"
proof -
  let ?s = oneBooking
  let ?b1 = "unknownClient (booking 99 19732 19723)" and ?b2 = "booking 99 19732 19723"
    and ?b3 = "booking 1 19732 19723" and ?b4 = "booking 1 19730 19740"
    and ?b5 = "booking 1 19733 19737"
  let ?w = "the (getWheelchair ?s 1)"
  have h1: "getClient ?s (clientId ?b1) = None" by code_simp
  have h2: "getClient ?s (clientId ?b2) \<noteq> None \<and> getWheelchair ?s (wheelchairId ?b2) = None"
    by code_simp
  have h3: "getClient ?s (clientId ?b3) \<noteq> None \<and> getWheelchair ?s (wheelchairId ?b3) \<noteq> None \<and>
            \<not> startDate ?b3 < endDate ?b3" by code_simp
  have h4: "getClient ?s (clientId ?b4) \<noteq> None \<and> getWheelchair ?s (wheelchairId ?b4) \<noteq> None \<and>
       startDate ?b4 < endDate ?b4 \<and>
       wheelchairId ?b4 \<notin> w_id ` set (availableWheelchairs (checkAvailability ?s (startDate ?b4) (endDate ?b4)))"
    by code_simp
  have h5: "getClient ?s (clientId ?b5) \<noteq> None \<and>
       getWheelchair ?s (wheelchairId ?b5) = Some ?w \<and>
       startDate ?b5 < endDate ?b5 \<and>
       wheelchairId ?b5 \<in> w_id ` set (availableWheelchairs (checkAvailability ?s (startDate ?b5) (endDate ?b5)))"
    by code_simp
  have cnt: "rentalCount ?w = Some 1" by code_simp
  have two: "(2::int) \<noteq> wheelchairId ?b5" by code_simp
  have f: "reservationsFiled ?s"
    using post_reservations_checks_in_order[where reqs =
      "[PostClient anaGarcia, PostReservation (booking 1 19723 19732)]"]
    by (simp add: oneBooking_def)
  have e1: "post_reservations ?s ?b1 = Inl (HttpError 400 ''Client not found'')"
    using post_reservations_checks_in_order[of ?s ?b1] h1 by blast
  have e2: "post_reservations ?s ?b2 = Inl (HttpError 400 ''Wheelchair not found'')"
    using post_reservations_checks_in_order[of ?s ?b2] h2 by blast
  have e3: "post_reservations ?s ?b3 = Inl (HttpError 400 ''End date must be after start date'')"
    using post_reservations_checks_in_order[of ?s ?b3] h3 by blast
  have e4: "post_reservations ?s ?b4 =
              Inl (HttpError 400 ''Wheelchair is not available for the requested dates'')"
    using post_reservations_checks_in_order[of ?s ?b4] h4 by blast
  from post_reservations_checks_in_order[where s = ?s and b = ?b5 and w = ?w and n = 1 and v = 2]
    h5 f cnt two
  obtain s' r where ok: "post_reservations ?s ?b5 = Inr (s', r)"
    "r = \<lparr>clientId = clientId ?b5, wheelchairId = wheelchairId ?b5, startDate = startDate ?b5,
          endDate = endDate ?b5, r_notes = r_notes ?b5, r_id = reservationCurrentId ?s,
          status = ''active''\<rparr>"
    "reservationCurrentId s' = reservationCurrentId ?s + 1"
    "getReservation s' (r_id r) = Some r"
    "getWheelchair s' (wheelchairId ?b5) = Some (?w\<lparr>rentalCount := Some (1 + 1)\<rparr>)"
    "getWheelchair s' 2 = getWheelchair ?s 2"
    "getReservation ?s (r_id r) = None"
    by blast
  have st: "step ?s (PostReservation ?b5) = s'" by (simp add: step_def ok(1))
  have v: "clientId ?b5 = 1" "wheelchairId ?b5 = 1" "startDate ?b5 = day 19733"
    "endDate ?b5 = day 19737" "r_notes ?b5 = None" "reservationCurrentId ?s = 2"
    by code_simp+
  have r: "r = \<lparr>clientId = 1, wheelchairId = 1, startDate = day 19733, endDate = day 19737,
          r_notes = None, r_id = 2, status = ''active''\<rparr>"
    using ok(2) by (simp add: v)
  have e5: "map_sum id snd (post_reservations ?s ?b5) = Inr r" using ok(1) by simp
  have e6: "getReservation ?s 2 = None" using ok(7) r by simp
  have e7: "getReservation (step ?s (PostReservation ?b5)) 2 = Some r"
    using ok(4) r by (simp add: st)
  have e8: "reservationCurrentId ?s = 2" by (rule v(6))
  have e9: "reservationCurrentId (step ?s (PostReservation ?b5)) = 3"
    using ok(3) by (simp add: st v)
  have e10: "map_option rentalCount (getWheelchair ?s 1) = Some (Some 1)" by code_simp
  have e11: "map_option rentalCount (getWheelchair (step ?s (PostReservation ?b5)) 1) = Some (Some 2)"
    using ok(5) by (simp add: st v)
  have run: "getReservation (step ?s (PostReservation ?b5)) 2 = Some r"
    "reservationCurrentId (step ?s (PostReservation ?b5)) = 3"
    "map_option rentalCount (getWheelchair (step ?s (PostReservation ?b5)) 1) = Some (Some 2)"
    "map_option rentalCount (getWheelchair (step ?s (PostReservation ?b5)) 2) = Some (Some 0)"
    unfolding r by code_simp+
  have e12: "map_option rentalCount (getWheelchair ?s 2) = Some (Some 0)" by code_simp
  have e13: "map_option rentalCount (getWheelchair (step ?s (PostReservation ?b5)) 2) = Some (Some 0)"
    using ok(6) e12 by (simp add: st)
  from e1 e2 e3 e4 e5 e6 e7 e8 e9 e10 e11 e12 e13 run show ?thesis unfolding r by blast
qed

subsection \<open>C5: start strictly before end\<close>

text \<open>
  C5. Every reservation the server has stored, after any requests, has its start date
  strictly before its end date. A creation is accepted only with the start before the
  end. An accepted update whose body carries a start date or an end date, with any value
  of \<open>status\<close> or none, was checked on the effective dates (the body's value, else the
  stored one): the stored row has these dates and its start is strictly before its end.
\<close>

theorem start_before_end_enforced:
  "startBeforeEnd (run MemStorage_new reqs)
   \<and> (post_reservations s b = Inr (s1, r1) \<longrightarrow> startDate b < endDate b \<and> startDate r1 < endDate r1)
   \<and> ((pr_startDate p \<noteq> None \<or> pr_endDate p \<noteq> None) \<and> put_reservations s i p = Inr (s2, r2) \<longrightarrow>
        (\<exists>ex. getReservation s i = Some ex \<and>
              startDate r2 = spread (startDate ex) (pr_startDate p) \<and>
              endDate r2 = spread (endDate ex) (pr_endDate p)) \<and>
        startDate r2 < endDate r2 \<and> getReservation s2 i = Some r2)"
proof (intro conjI impI)
  show "startBeforeEnd (run MemStorage_new reqs)" using run_invariants by blast
next
  assume a: "post_reservations s b = Inr (s1, r1)"
  from post_reservations_Inr(3,5)[OF a]
  show "startDate b < endDate b" "startDate r1 < endDate r1"
    by (auto simp: createReservation_def Let_def)
next
  assume a: "(pr_startDate p \<noteq> None \<or> pr_endDate p \<noteq> None) \<and> put_reservations s i p = Inr (s2, r2)"
  let ?p = "reservationSchema_partial_parse p"
  from a have h: "put_reservations_handler s i ?p = Inr (s2, r2)"
    by (simp add: put_reservations_def)
  from put_reservations_handler_Inr(1)[OF h]
  obtain ex where ex: "getReservation s i = Some ex" "r2 = spreadReservation ex ?p" by blast
  from a have d: "pr_startDate ?p \<noteq> None \<or> pr_endDate ?p \<noteq> None"
    by (simp add: parse_fields)
  show "\<exists>ex. getReservation s i = Some ex \<and>
              startDate r2 = spread (startDate ex) (pr_startDate p) \<and>
              endDate r2 = spread (endDate ex) (pr_endDate p)"
    using ex by (auto simp: spreadReservation_fields parse_fields)
  show "startDate r2 < endDate r2"
    by (rule put_accepted_row(3)[OF h parse_fields(1) ex(1) d])
  show "getReservation s2 i = Some r2"
    by (simp add: put_reservations_handler_Inr(2)[OF h] getReservation_def update_conv')
qed

text \<open>
  The theorem at the store \<open>oneBooking\<close> and a body with new dates and the status
  \<open>cancelled\<close>: the update is accepted, the dates are checked and stored, and the status
  stays \<open>active\<close>, since the parsed body has none. With the two dates swapped the same
  body is refused.
\<close>

theorem start_before_end_enforced_witness:
  "pr_status (cancelWithDates 19725 19735) = Some ''cancelled'' \<and>
   accepted oneBooking (PutReservation 1 (cancelWithDates 19725 19735)) \<and>
   map (\<lambda>r. (startDate r, endDate r, status r))
     (getAllReservations (step oneBooking (PutReservation 1 (cancelWithDates 19725 19735))))
     = [(day 19725, day 19735, ''active'')] \<and>
   day 19725 < day 19735 \<and>
   put_reservations oneBooking 1 (cancelWithDates 19735 19725) =
     Inl (HttpError 400 ''End date must be after start date'') \<and>
   startBeforeEnd (run MemStorage_new backToBack)"
proof -
  let ?p = "cancelWithDates 19725 19735"
  obtain s2 r2 where a: "put_reservations oneBooking 1 ?p = Inr (s2, r2)"
  proof -
    have "\<not> isl (put_reservations oneBooking 1 ?p)" by code_simp
    then show ?thesis using that by (cases "put_reservations oneBooking 1 ?p") auto
  qed
  have st: "step oneBooking (PutReservation 1 ?p) = s2" by (simp add: step_def a)
  have acc: "accepted oneBooking (PutReservation 1 ?p)" by (simp add: accepted_def a)
  have d: "pr_startDate ?p \<noteq> None \<or> pr_endDate ?p \<noteq> None" by code_simp
  from start_before_end_enforced[where s = oneBooking and i = 1 and p = ?p and ?s2.0 = s2
      and ?r2.0 = r2 and reqs = backToBack] a d
  have lt: "startDate r2 < endDate r2" and sbe: "startBeforeEnd (run MemStorage_new backToBack)"
    by blast+
  have row: "map (\<lambda>r. (startDate r, endDate r, status r))
     (getAllReservations (step oneBooking (PutReservation 1 ?p)))
     = [(day 19725, day 19735, ''active'')]" by code_simp
  have "getAllReservations s2 = [r2]"
  proof -
    have "getAllReservations (step oneBooking (PutReservation 1 ?p)) =
            [snd (projr (put_reservations oneBooking 1 ?p))]" by code_simp
    then show ?thesis by (simp add: st a)
  qed
  with row st have "startDate r2 = day 19725" "endDate r2 = day 19735" by simp_all
  with lt have "day 19725 < day 19735" by simp
  moreover have "pr_status ?p = Some ''cancelled''"
    "put_reservations oneBooking 1 (cancelWithDates 19735 19725) =
       Inl (HttpError 400 ''End date must be after start date'')"
    by code_simp+
  ultimately show ?thesis using acc row sbe by blast
qed

subsection \<open>C6: the rental count\<close>

text \<open>
  C6. \<open>createReservation\<close> raises the rental count of the wheelchair it references, when
  the store has it, by exactly one, and leaves every other wheelchair as it was; an
  accepted \<open>POST /reservations\<close> always finds the wheelchair. \<open>updateReservation\<close>
  (whatever the patch, a status included) and \<open>deleteReservation\<close>, and the two routes
  on them, leave all wheelchairs as they were.
\<close>

theorem rentalCount_up_by_one_on_create_only:
  "(getWheelchair s (wheelchairId b) = Some w \<longrightarrow>
      getWheelchair (fst (createReservation s b)) (wheelchairId b) =
        Some (w\<lparr>rentalCount := Some (rentalCountOr0 w + 1)\<rparr>) \<and>
      rentalCountOr0 (w\<lparr>rentalCount := Some (rentalCountOr0 w + 1)\<rparr>) = rentalCountOr0 w + 1)
   \<and> (v \<noteq> wheelchairId b \<longrightarrow> getWheelchair (fst (createReservation s b)) v = getWheelchair s v)
   \<and> (post_reservations s b = Inr (s1, r1) \<longrightarrow>
        (\<exists>w1. getWheelchair s (wheelchairId b) = Some w1 \<and>
              getWheelchair s1 (wheelchairId b) =
                Some (w1\<lparr>rentalCount := Some (rentalCountOr0 w1 + 1)\<rparr>)) \<and>
        (v \<noteq> wheelchairId b \<longrightarrow> getWheelchair s1 v = getWheelchair s v))
   \<and> wheelchairsData (fst (updateReservation s i p)) = wheelchairsData s
   \<and> wheelchairsData (fst (deleteReservation s i)) = wheelchairsData s
   \<and> (put_reservations s i p = Inr (s2, r2) \<longrightarrow> wheelchairsData s2 = wheelchairsData s)
   \<and> (delete_reservations s i = Inr s3 \<longrightarrow> wheelchairsData s3 = wheelchairsData s)"
proof (intro conjI impI)
  assume "post_reservations s b = Inr (s1, r1)"
  from post_reservations_Inr(2,5)[OF this]
  have w: "getWheelchair s (wheelchairId b) \<noteq> None" and s1: "s1 = fst (createReservation s b)"
    by simp_all
  from w show "\<exists>w1. getWheelchair s (wheelchairId b) = Some w1 \<and>
              getWheelchair s1 (wheelchairId b) =
                Some (w1\<lparr>rentalCount := Some (rentalCountOr0 w1 + 1)\<rparr>)"
    by (auto simp: s1 getWheelchair_createReservation)
  show "getWheelchair s1 v = getWheelchair s v" if "v \<noteq> wheelchairId b"
    using that by (simp add: s1 getWheelchair_createReservation)
next
  assume "put_reservations s i p = Inr (s2, r2)"
  then show "wheelchairsData s2 = wheelchairsData s"
    unfolding put_reservations_def using put_reservations_handler_Inr(2) by fastforce
next
  assume "delete_reservations s i = Inr s3"
  then show "wheelchairsData s3 = wheelchairsData s" by (rule delete_rows(3))
qed (simp_all add: getWheelchair_createReservation rentalCountOr0_incremented
      updateReservation_wheelchairs deleteReservation_wheelchairs)

text \<open>
  The theorem at the store \<open>oneBooking\<close>: a second booking of wheelchair 1 takes its count
  from 1 to 2, and cancelling the first reservation in the store changes no count.
\<close>

theorem rentalCount_up_by_one_on_create_only_witness:
  "map_option rentalCount (getWheelchair oneBooking 1) = Some (Some 1) \<and>
   accepted oneBooking (PostReservation (booking 1 19733 19737)) \<and>
   map_option rentalCount
     (getWheelchair (step oneBooking (PostReservation (booking 1 19733 19737))) 1) = Some (Some 2) \<and>
   map rentalCount (getAllWheelchairs
     (fst (updateReservation oneBooking 1 (noChange\<lparr>pr_status := Some ''cancelled''\<rparr>))))
     = map rentalCount (getAllWheelchairs oneBooking)"
proof -
  let ?b = "booking 1 19733 19737"
  let ?w = "the (getWheelchair oneBooking 1)"
  obtain s1 r1 where p: "post_reservations oneBooking ?b = Inr (s1, r1)"
  proof -
    have "\<not> isl (post_reservations oneBooking ?b)" by code_simp
    then show ?thesis using that by (cases "post_reservations oneBooking ?b") auto
  qed
  have st: "step oneBooking (PostReservation ?b) = s1"
    by (simp add: step_def p)
  have acc: "accepted oneBooking (PostReservation ?b)"
    by (simp add: accepted_def p)
  have w: "getWheelchair oneBooking (wheelchairId ?b) = Some ?w" by code_simp
  have b: "wheelchairId ?b = 1" by code_simp
  have c: "rentalCount ?w = Some 1" "rentalCountOr0 ?w = 1" by code_simp+
  from rentalCount_up_by_one_on_create_only[where s = oneBooking and b = ?b and ?s1.0 = s1
      and ?r1.0 = r1 and i = 1 and p = "noChange\<lparr>pr_status := Some ''cancelled''\<rparr>"] p w
  have "getWheelchair s1 (wheelchairId ?b) = Some (?w\<lparr>rentalCount := Some (rentalCountOr0 ?w + 1)\<rparr>)"
    and "wheelchairsData (fst (updateReservation oneBooking 1
           (noChange\<lparr>pr_status := Some ''cancelled''\<rparr>))) = wheelchairsData oneBooking"
    by auto
  then have "map_option rentalCount (getWheelchair (step oneBooking (PostReservation ?b)) 1) = Some (Some 2)"
    and "map rentalCount (getAllWheelchairs
     (fst (updateReservation oneBooking 1 (noChange\<lparr>pr_status := Some ''cancelled''\<rparr>))))
     = map rentalCount (getAllWheelchairs oneBooking)"
    by (simp_all add: st b c getAllWheelchairs_def)
  moreover have "map_option rentalCount (getWheelchair oneBooking 1) = Some (Some 1)"
    by code_simp
  ultimately show ?thesis using acc by blast
qed

subsection \<open>C7: the insert and the counter increment\<close>

text \<open>
  C7 (as amended). When the wheelchair identifier of the reservation resolves to a stored
  wheelchair, \<open>createReservation\<close> does both: the reservation is stored under its new
  identifier and the wheelchair's rental count, \<open>n\<close> before the call, is \<open>n + 1\<close>
  after it (a count that was \<open>null\<close> is 1 after it). \<open>POST /reservations\<close> calls
  \<open>createReservation\<close> only after it has found the wheelchair, so every accepted request
  does both.
\<close>

theorem createReservation_unit_of_work:
  "(getWheelchair s (wheelchairId b) = Some w \<and> createReservation s b = (s', r) \<longrightarrow>
      getReservation s' (r_id r) = Some r \<and>
      (rentalCount w = Some n \<longrightarrow>
         getWheelchair s' (wheelchairId b) = Some (w\<lparr>rentalCount := Some (n + 1)\<rparr>)) \<and>
      (rentalCount w = None \<longrightarrow>
         getWheelchair s' (wheelchairId b) = Some (w\<lparr>rentalCount := Some 1\<rparr>)))
   \<and> (post_reservations s b = Inr (s1, r1) \<longrightarrow>
        createReservation s b = (s1, r1) \<and>
        getReservation s1 (r_id r1) = Some r1 \<and>
        (\<exists>w1. getWheelchair s (wheelchairId b) = Some w1 \<and>
              (rentalCount w1 = Some n \<longrightarrow>
                 getWheelchair s1 (wheelchairId b) = Some (w1\<lparr>rentalCount := Some (n + 1)\<rparr>)) \<and>
              (rentalCount w1 = None \<longrightarrow>
                 getWheelchair s1 (wheelchairId b) = Some (w1\<lparr>rentalCount := Some 1\<rparr>))))"
proof (intro conjI impI)
  assume a: "getWheelchair s (wheelchairId b) = Some w \<and> createReservation s b = (s', r)"
  then have s': "s' = fst (createReservation s b)" and r: "r = snd (createReservation s b)"
    and w: "getWheelchair s (wheelchairId b) = Some w"
    by simp_all
  have rid: "r_id (snd (createReservation s b)) = reservationCurrentId s"
    by (simp add: createReservation_row)
  show "getReservation s' (r_id r) = Some r"
    unfolding s' r rid by (rule getReservation_createReservation)
  show "getWheelchair s' (wheelchairId b) = Some (w\<lparr>rentalCount := Some (n + 1)\<rparr>)"
    if "rentalCount w = Some n"
    using w that unfolding s' by (simp add: getWheelchair_createReservation rentalCountOr0_def)
  show "getWheelchair s' (wheelchairId b) = Some (w\<lparr>rentalCount := Some 1\<rparr>)"
    if "rentalCount w = None"
    using w that unfolding s' by (simp add: getWheelchair_createReservation rentalCountOr0_def)
next
  assume p: "post_reservations s b = Inr (s1, r1)"
  note c = post_reservations_Inr(5)[OF p]
  then have s1: "s1 = fst (createReservation s b)" and r1: "r1 = snd (createReservation s b)"
    by simp_all
  have rid: "r_id (snd (createReservation s b)) = reservationCurrentId s"
    by (simp add: createReservation_row)
  show "createReservation s b = (s1, r1)" by (rule c)
  show "getReservation s1 (r_id r1) = Some r1"
    unfolding s1 r1 rid by (rule getReservation_createReservation)
  from post_reservations_Inr(2)[OF p]
  obtain w1 where w1: "getWheelchair s (wheelchairId b) = Some w1" by auto
  have inc: "rentalCount w1 = Some n \<longrightarrow>
          getWheelchair s1 (wheelchairId b) = Some (w1\<lparr>rentalCount := Some (n + 1)\<rparr>)"
    using w1 by (simp add: s1 getWheelchair_createReservation rentalCountOr0_def)
  have nul: "rentalCount w1 = None \<longrightarrow>
          getWheelchair s1 (wheelchairId b) = Some (w1\<lparr>rentalCount := Some 1\<rparr>)"
    using w1 by (simp add: s1 getWheelchair_createReservation rentalCountOr0_def)
  show "\<exists>w1. getWheelchair s (wheelchairId b) = Some w1 \<and>
              (rentalCount w1 = Some n \<longrightarrow>
                 getWheelchair s1 (wheelchairId b) = Some (w1\<lparr>rentalCount := Some (n + 1)\<rparr>)) \<and>
              (rentalCount w1 = None \<longrightarrow>
                 getWheelchair s1 (wheelchairId b) = Some (w1\<lparr>rentalCount := Some 1\<rparr>))"
    by (rule exI[of _ w1]) (intro conjI w1 inc nul)
qed

text \<open>
  The theorem at the store \<open>oneBooking\<close> and a second booking of wheelchair 1: the row is
  stored under the identifier 2, which held nothing before, and the rental count of the
  wheelchair goes from 1 to 2.
\<close>

theorem createReservation_unit_of_work_witness:
  "map_option rentalCount (getWheelchair oneBooking 1) = Some (Some 1) \<and>
   getReservation oneBooking 2 = None \<and>
   getReservation (fst (createReservation oneBooking (booking 1 19733 19737))) 2 =
     Some \<lparr>clientId = 1, wheelchairId = 1, startDate = day 19733, endDate = day 19737,
           r_notes = None, r_id = 2, status = ''active''\<rparr> \<and>
   map_option rentalCount
     (getWheelchair (fst (createReservation oneBooking (booking 1 19733 19737))) 1) = Some (Some 2)"
proof -
  let ?b = "booking 1 19733 19737"
  let ?w = "the (getWheelchair oneBooking 1)"
  let ?s' = "fst (createReservation oneBooking ?b)" and ?r = "snd (createReservation oneBooking ?b)"
  have w: "getWheelchair oneBooking (wheelchairId ?b) = Some ?w" by code_simp
  have cnt: "rentalCount ?w = Some 1" by code_simp
  have b: "wheelchairId ?b = 1" by code_simp
  have r: "?r = \<lparr>clientId = 1, wheelchairId = 1, startDate = day 19733, endDate = day 19737,
           r_notes = None, r_id = 2, status = ''active''\<rparr>" by code_simp
  from createReservation_unit_of_work[where s = oneBooking and b = ?b and w = ?w
      and s' = ?s' and r = ?r and n = 1] w cnt
  have "getReservation ?s' (r_id ?r) = Some ?r"
    and "getWheelchair ?s' (wheelchairId ?b) = Some (?w\<lparr>rentalCount := Some (1 + 1)\<rparr>)"
    by auto
  then have "getReservation ?s' 2 = Some \<lparr>clientId = 1, wheelchairId = 1, startDate = day 19733,
           endDate = day 19737, r_notes = None, r_id = 2, status = ''active''\<rparr>"
    and "map_option rentalCount (getWheelchair ?s' 1) = Some (Some 2)"
    by (simp_all add: b r)
  moreover have "map_option rentalCount (getWheelchair oneBooking 1) = Some (Some 1)"
    "getReservation oneBooking 2 = None"
    by code_simp+
  moreover have "map_option rentalCount (getWheelchair ?s' 1) = Some (Some 2)"
    "getReservation ?s' 2 = Some ?r"
    by code_simp+
  ultimately show ?thesis by blast
qed

text \<open>
  C7 as stated, for every call of the store's \<open>createReservation\<close>, fails when the
  identifier resolves to no wheelchair: the store has no wheelchair 99, the reservation
  for it is stored all the same, and no wheelchair changes.
\<close>

theorem reservation_stored_without_increment:
  "getWheelchair MemStorage_new 99 = None \<and>
   getReservation (fst (createReservation MemStorage_new (booking 99 19723 19732))) 1 =
     Some (snd (createReservation MemStorage_new (booking 99 19723 19732))) \<and>
   wheelchairId (snd (createReservation MemStorage_new (booking 99 19723 19732))) = 99 \<and>
   wheelchairsData (fst (createReservation MemStorage_new (booking 99 19723 19732))) =
     wheelchairsData MemStorage_new"
  by code_simp

subsection \<open>C8: the dashboard counts\<close>

text \<open>
  C8. \<open>getDashboardStats\<close> counts as active the reservations with status \<open>active\<close> and
  an end date not before \<open>today\<close>; the available wheelchairs are the total minus the
  number of distinct wheelchair identifiers these reservations reference; the totals are
  the numbers of stored wheelchairs and clients. With three wheelchairs and one such
  reservation the answer is 2 available, 3 in total, 1 active.
\<close>

theorem getDashboardStats_counts:
  "ds_activeReservations (getDashboardStats s today) =
     int (length (filter (\<lambda>r. status r = ''active'' \<and> endDate r \<ge> today) (getAllReservations s)))
   \<and> ds_availableWheelchairs (getDashboardStats s today) =
       ds_totalWheelchairs (getDashboardStats s today) -
       int (card (wheelchairId `
         {r \<in> set (getAllReservations s). status r = ''active'' \<and> endDate r \<ge> today}))
   \<and> ds_totalWheelchairs (getDashboardStats s today) = int (length (getAllWheelchairs s))
   \<and> ds_totalClients (getDashboardStats s today) = int (length (getAllClients s))
   \<and> (length (getAllWheelchairs s) = 3 \<and>
       length (filter (\<lambda>r. status r = ''active'' \<and> endDate r \<ge> today) (getAllReservations s)) = 1
       \<longrightarrow> ds_availableWheelchairs (getDashboardStats s today) = 2 \<and>
           ds_totalWheelchairs (getDashboardStats s today) = 3 \<and>
           ds_activeReservations (getDashboardStats s today) = 1)"
proof -
  let ?act = "filter (\<lambda>r. status r = ''active'' \<and> endDate r \<ge> today) (getAllReservations s)"
  have a: "ds_activeReservations (getDashboardStats s today) = int (length ?act)"
    by (simp add: getDashboardStats_def Let_def getAllReservations_def)
  have t: "ds_totalWheelchairs (getDashboardStats s today) = int (length (getAllWheelchairs s))"
    by (simp add: getDashboardStats_def Let_def getAllWheelchairs_def Map_values_def)
  have c: "ds_totalClients (getDashboardStats s today) = int (length (getAllClients s))"
    by (simp add: getDashboardStats_def Let_def getAllClients_def Map_values_def)
  have "ds_availableWheelchairs (getDashboardStats s today) =
          ds_totalWheelchairs (getDashboardStats s today) - int (length (remdups (map wheelchairId ?act)))"
    by (simp add: getDashboardStats_def Let_def getAllReservations_def)
  then have v: "ds_availableWheelchairs (getDashboardStats s today) =
          ds_totalWheelchairs (getDashboardStats s today) - int (card (wheelchairId ` set ?act))"
    by (simp add: length_remdups_card_conv)
  have one: "card (wheelchairId ` set ?act) = 1" if "length ?act = 1"
  proof -
    from that obtain r where "?act = [r]"
      by (cases ?act) auto
    then show ?thesis by simp
  qed
  show ?thesis
    using a t c v one by auto
qed

text \<open>
  The theorem at the store \<open>threeChairsLeft\<close> on 2024-01-03.
\<close>

theorem getDashboardStats_counts_witness:
  "length (getAllWheelchairs threeChairsLeft) = 3 \<and>
   length (filter (\<lambda>r. status r = ''active'' \<and> endDate r \<ge> day 19725)
     (getAllReservations threeChairsLeft)) = 1 \<and>
   getDashboardStats threeChairsLeft (day 19725) =
     \<lparr>ds_availableWheelchairs = 2, ds_totalWheelchairs = 3, ds_activeReservations = 1,
      ds_totalClients = 1\<rparr>"
proof -
  have h: "length (getAllWheelchairs threeChairsLeft) = 3 \<and>
     length (filter (\<lambda>r. status r = ''active'' \<and> endDate r \<ge> day 19725)
       (getAllReservations threeChairsLeft)) = 1"
    by code_simp
  have c: "length (getAllClients threeChairsLeft) = 1" by code_simp
  from getDashboardStats_counts[of threeChairsLeft "day 19725"] h c
  have "ds_availableWheelchairs (getDashboardStats threeChairsLeft (day 19725)) = 2 \<and>
        ds_totalWheelchairs (getDashboardStats threeChairsLeft (day 19725)) = 3 \<and>
        ds_activeReservations (getDashboardStats threeChairsLeft (day 19725)) = 1 \<and>
        ds_totalClients (getDashboardStats threeChairsLeft (day 19725)) = 1"
    by simp
  then have "getDashboardStats threeChairsLeft (day 19725) =
     \<lparr>ds_availableWheelchairs = 2, ds_totalWheelchairs = 3, ds_activeReservations = 1,
      ds_totalClients = 1\<rparr>"
    by (cases "getDashboardStats threeChairsLeft (day 19725)") simp
  with h show ?thesis by simp
qed

subsection \<open>C9: the registration date of a client\<close>

text \<open>
  C9 (as amended). After an accepted \<open>PUT /clients/:id\<close> the client's \<open>registerDate\<close>
  is the one of the body when the body carries the key, and the one it had before
  otherwise; the other clients are as they were.
\<close>

theorem registerDate_follows_patch:
  "put_clients s i p = Inr (s', c') \<longrightarrow>
     (\<exists>c. getClient s i = Some c \<and> getClient s' i = Some c' \<and>
          registerDate c' = (case pc_registerDate p of None \<Rightarrow> registerDate c | Some d \<Rightarrow> d)) \<and>
     (j \<noteq> i \<longrightarrow> getClient s' j = getClient s j)"
proof
  assume a: "put_clients s i p = Inr (s', c')"
  from put_clients_Inr(1)[OF a] obtain c where c: "getClient s i = Some c" "c' = spreadClient c p"
    by blast
  note d = put_clients_Inr(2)[OF a]
  have "getClient s' i = Some c'" by (simp add: getClient_def d update_conv')
  moreover have "registerDate c' = (case pc_registerDate p of None \<Rightarrow> registerDate c | Some d \<Rightarrow> d)"
    by (simp add: c(2) spreadClient_def spread_def)
  moreover have "j \<noteq> i \<longrightarrow> getClient s' j = getClient s j"
    by (simp add: getClient_def d update_conv')
  ultimately show "(\<exists>c. getClient s i = Some c \<and> getClient s' i = Some c' \<and>
          registerDate c' = (case pc_registerDate p of None \<Rightarrow> registerDate c | Some d \<Rightarrow> d)) \<and>
     (j \<noteq> i \<longrightarrow> getClient s' j = getClient s j)"
    using c(1) by blast
qed

text \<open>
  The theorem at the store \<open>oneClient\<close> and a body that changes the city only: the
  registration date stays.
\<close>

theorem registerDate_follows_patch_witness:
  "map registerDate (getAllClients oneClient) = [''2024-01-01''] \<and>
   accepted oneClient (PutClient 1 (noClientChange\<lparr>pc_city := Some ''Sevilla''\<rparr>)) \<and>
   map (\<lambda>c. (city c, registerDate c))
     (getAllClients (step oneClient (PutClient 1 (noClientChange\<lparr>pc_city := Some ''Sevilla''\<rparr>))))
     = [(''Sevilla'', ''2024-01-01'')]"
proof -
  let ?p = "noClientChange\<lparr>pc_city := Some ''Sevilla''\<rparr>"
  obtain s' c' where a: "put_clients oneClient 1 ?p = Inr (s', c')"
  proof -
    have "\<not> isl (put_clients oneClient 1 ?p)" by code_simp
    then show ?thesis using that by (cases "put_clients oneClient 1 ?p") auto
  qed
  have st: "step oneClient (PutClient 1 ?p) = s'" by (simp add: step_def a)
  have acc: "accepted oneClient (PutClient 1 ?p)" by (simp add: accepted_def a)
  have n: "pc_registerDate ?p = None" by code_simp
  have o: "map registerDate (getAllClients oneClient) = [''2024-01-01'']"
    "map_option registerDate (getClient oneClient 1) = Some ''2024-01-01''" by code_simp+
  from registerDate_follows_patch[of oneClient 1 ?p s' c'] a n o(2)
  have "registerDate c' = ''2024-01-01''" by auto
  moreover have "map (\<lambda>c. (city c, registerDate c)) (getAllClients s')
                 = [(''Sevilla'', registerDate c')]"
  proof -
    have "getAllClients s' = [snd (projr (put_clients oneClient 1 ?p))]" unfolding st[symmetric]
      by code_simp
    moreover have "city (snd (projr (put_clients oneClient 1 ?p))) = ''Sevilla''" by code_simp
    ultimately show ?thesis by (simp add: a)
  qed
  ultimately show ?thesis using o(1) acc by (simp add: st)
qed

text \<open>
  C9 as stated fails for a body that carries \<open>registerDate\<close>: the client schema has the
  key, the request is accepted and the stored date is replaced.
\<close>

theorem registerDate_overwritten_by_update:
  "map registerDate (getAllClients oneClient) = [''2024-01-01''] \<and>
   accepted oneClient (PutClient 1 newRegisterDate) \<and>
   map registerDate (getAllClients (step oneClient (PutClient 1 newRegisterDate))) = [''2030-12-31'']"
  by code_simp

subsection \<open>C10: expiry is not part of checkAvailability\<close>

text \<open>
  C10. An active reservation whose end date is before \<open>today\<close> still keeps its
  wheelchair out of the \<open>availableWheelchairs\<close> of every range it overlaps, while
  \<open>getActiveReservations\<close> and the active count of \<open>getDashboardStats\<close> leave it out:
  they keep the active reservations whose end date is not before \<open>today\<close>. So there is
  a store, a day and a range in the past for which the dashboard counts every wheelchair
  available and \<open>checkAvailability\<close> leaves one out.
\<close>

theorem checkAvailability_ignores_expiry:
  "(r \<in> set (getAllReservations s) \<and> status r = ''active'' \<and> endDate r < today \<and>
    overlaps (startDate r) (endDate r) startD endD
    \<longrightarrow> wheelchairId r \<notin> w_id ` set (availableWheelchairs (checkAvailability s startD endD)) \<and>
        r \<notin> set (getActiveReservations s today))
   \<and> set (getActiveReservations s today) =
       {r \<in> set (getAllReservations s). status r = ''active'' \<and> endDate r \<ge> today}
   \<and> ds_activeReservations (getDashboardStats s today) = int (length (getActiveReservations s today))
   \<and> (\<exists>s' today' startD' endD' u.
        endD' < today' \<and> u \<in> w_id ` set (getAllWheelchairs s') \<and>
        ds_availableWheelchairs (getDashboardStats s' today') =
          ds_totalWheelchairs (getDashboardStats s' today') \<and>
        u \<notin> w_id ` set (availableWheelchairs (checkAvailability s' startD' endD')))"
proof (intro conjI)
  show "r \<in> set (getAllReservations s) \<and> status r = ''active'' \<and> endDate r < today \<and>
    overlaps (startDate r) (endDate r) startD endD
    \<longrightarrow> wheelchairId r \<notin> w_id ` set (availableWheelchairs (checkAvailability s startD endD)) \<and>
        r \<notin> set (getActiveReservations s today)"
    by (auto simp: availableWheelchairs_eq list_ex_iff blocks_def getActiveReservations_set)
  show "set (getActiveReservations s today) =
       {r \<in> set (getAllReservations s). status r = ''active'' \<and> endDate r \<ge> today}"
    by (rule getActiveReservations_set)
  show "ds_activeReservations (getDashboardStats s today) = int (length (getActiveReservations s today))"
    by (simp add: getDashboardStats_def getActiveReservations_def Let_def)
  have "day 19732 < day 20000 \<and> 1 \<in> w_id ` set (getAllWheelchairs oneBooking) \<and>
        ds_availableWheelchairs (getDashboardStats oneBooking (day 20000)) =
          ds_totalWheelchairs (getDashboardStats oneBooking (day 20000)) \<and>
        1 \<notin> w_id ` set (availableWheelchairs (checkAvailability oneBooking (day 19723) (day 19732)))"
    by code_simp
  then show "\<exists>s' today' startD' endD' u.
        endD' < today' \<and> u \<in> w_id ` set (getAllWheelchairs s') \<and>
        ds_availableWheelchairs (getDashboardStats s' today') =
          ds_totalWheelchairs (getDashboardStats s' today') \<and>
        u \<notin> w_id ` set (availableWheelchairs (checkAvailability s' startD' endD'))"
    by blast
qed

text \<open>
  The theorem at the store \<open>oneBooking\<close>, whose reservation ended on 2024-01-10, seen on
  day 20000 (2024-10-04).
\<close>

theorem checkAvailability_ignores_expiry_witness:
  "map (\<lambda>r. (wheelchairId r, status r, endDate r)) (getAllReservations oneBooking)
     = [(1, ''active'', day 19732)] \<and>
   day 19732 < day 20000 \<and>
   1 \<notin> w_id ` set (availableWheelchairs (checkAvailability oneBooking (day 19723) (day 19732))) \<and>
   getActiveReservations oneBooking (day 20000) = [] \<and>
   ds_availableWheelchairs (getDashboardStats oneBooking (day 20000)) = 15"
proof -
  let ?r = "hd (getAllReservations oneBooking)"
  have h: "?r \<in> set (getAllReservations oneBooking) \<and> status ?r = ''active'' \<and>
           endDate ?r < day 20000 \<and>
           overlaps (startDate ?r) (endDate ?r) (day 19723) (day 19732)"
    by code_simp
  have u: "wheelchairId ?r = 1" by code_simp
  from checkAvailability_ignores_expiry[of ?r oneBooking "day 20000" "day 19723" "day 19732"] h u
  have "1 \<notin> w_id ` set (availableWheelchairs (checkAvailability oneBooking (day 19723) (day 19732)))"
    by metis
  moreover have "map (\<lambda>r. (wheelchairId r, status r, endDate r)) (getAllReservations oneBooking)
     = [(1, ''active'', day 19732)]" "day 19732 < day 20000"
    "getActiveReservations oneBooking (day 20000) = []"
    "ds_availableWheelchairs (getDashboardStats oneBooking (day 20000)) = 15"
    by code_simp+
  ultimately show ?thesis by blast
qed

end
